theory Spec2Isabelle
  imports Main "HOL-Library.Sublist"
begin

section \<open>The dependency-injection container of \<^verbatim>\<open>container/container.go\<close>\<close>

text \<open>
  The container is a Go struct that is mutated in place. The model passes it explicitly:
  every operation takes the container and returns the container it leaves behind, also
  when it returns an error, because the Go code keeps its mutations on error returns.
  Logging (\<^verbatim>\<open>logf\<close>, \<^verbatim>\<open>indentLogger\<close>, \<^verbatim>\<open>dedentLogger\<close>) has no effect on
  any of the fields below and is left out.
\<close>

subsection \<open>Runtime types (\<^verbatim>\<open>reflect.Type\<close>)\<close>

datatype reflect_Kind = reflect_String | reflect_Slice | reflect_Map | reflect_Other

text \<open>
  A type key: a named type of string kind or of some other non-composite kind, the
  unnamed slice and map types built by \<^verbatim>\<open>reflect.SliceOf\<close> and \<^verbatim>\<open>reflect.MapOf\<close>,
  and a defined type with a name of its own over an underlying type. Equality of the
  datatype is Go's identity of types.
\<close>

datatype Type =
    StringKind string
  | OtherKind string
  | SliceOf Type
  | MapOf Type Type
  | Defined string Type

fun Kind :: "Type \<Rightarrow> reflect_Kind" where
  "Kind (StringKind n) = reflect_String"
| "Kind (OtherKind n) = reflect_Other"
| "Kind (SliceOf t) = reflect_Slice"
| "Kind (MapOf k v) = reflect_Map"
| "Kind (Defined n u) = Kind u"

text \<open>
  \<^verbatim>\<open>Elem\<close> and \<^verbatim>\<open>Key\<close> panic in Go on a type of the wrong kind. Every call in
  \<^verbatim>\<open>container.go\<close> stands behind a test of the kind (Go's \<^verbatim>\<open>&&\<close> is lazy), so the
  equations for the other kinds are never reached from the code.
\<close>

fun Elem :: "Type \<Rightarrow> Type" where
  "Elem (StringKind n) = StringKind n"
| "Elem (OtherKind n) = OtherKind n"
| "Elem (SliceOf t) = t"
| "Elem (MapOf k v) = v"
| "Elem (Defined n u) = Elem u"

fun Key :: "Type \<Rightarrow> Type" where
  "Key (StringKind n) = StringKind n"
| "Key (OtherKind n) = OtherKind n"
| "Key (SliceOf t) = SliceOf t"
| "Key (MapOf k v) = k"
| "Key (Defined n u) = Key u"

text \<open>The rendering of a type under \<^verbatim>\<open>%v\<close>.\<close>

fun typeString :: "Type \<Rightarrow> string" where
  "typeString (StringKind n) = n"
| "typeString (OtherKind n) = n"
| "typeString (SliceOf t) = ''[]'' @ typeString t"
| "typeString (MapOf k v) = ''map['' @ typeString k @ '']'' @ typeString v"
| "typeString (Defined n u) = n"

definition scopeType :: Type where
  "scopeType = OtherKind ''container.Scope''"

definition stringType :: Type where
  "stringType = StringKind ''string''"

subsection \<open>Locations, scopes, values, errors\<close>

type_synonym addr = nat

text \<open>
  A location has a short name (\<^verbatim>\<open>Name()\<close>) and a rendering under \<^verbatim>\<open>%s\<close>
  (\<^verbatim>\<open>String()\<close>); it is compared by value.
\<close>

datatype Location = Loc (Name: string) (String: string)

text \<open>A scope is a heap object with a name; two scopes are the same when their addresses are.\<close>

datatype Scope = Scope (scope_addr: addr) (scope_Name: string)

datatype Value =
    Invalid
  | ValueOf_Scope Scope
  | Zero Type
  | Val Type nat

datatype error =
    Errorf string
  | Wrapf error string
  | Panic string

datatype ProviderInput = ProviderInput (in_Type: Type) (Optional: bool)

datatype ProviderOutput = ProviderOutput (out_Type: Type)

record ProviderDescriptor =
  Inputs :: "ProviderInput list"
  Outputs :: "ProviderOutput list"
  Fn :: "Value list \<Rightarrow> error + Value list"
  Location :: Location

subsection \<open>Provider nodes and resolvers\<close>

text \<open>
  Every \<^verbatim>\<open>&T{...}\<close> of the source allocates an object; the model gives it the next
  free address. The fields an object is built with in \<^verbatim>\<open>container.go\<close> are the
  arguments of its constructor here. The fields that only the methods of the other files
  read and write (the caches of the providers, the provider lists of the group and
  one-per-scope resolvers) live in the store of the container, under that address.
\<close>

datatype node =
    simpleProvider addr ProviderDescriptor "Scope option"
  | scopeDepProvider addr ProviderDescriptor

datatype resolver =
    simpleResolver addr node Type
  | groupResolver addr Type Type
  | sliceGroupResolver addr resolver
  | onePerScopeResolver addr Type Type
  | mapOfOnePerScopeResolver addr resolver
  | scopeDepResolver addr Type nat node
  | supplyResolver addr Type Value Location

record resolveFrame =
  frame_loc :: Location
  frame_typ :: Type

record ('g, 'h) container =
  resolvers :: "Type \<rightharpoonup> resolver"
  scopes :: "string \<rightharpoonup> Scope"
  resolveStack :: "resolveFrame list"
  callerStack :: "Location list"
  callerMap :: "Location \<rightharpoonup> bool"
  graph :: 'g
  store :: 'h
  alloc :: addr

definition new :: "('g, 'h) container \<Rightarrow> addr \<times> ('g, 'h) container" where
  "new c = (alloc c, c\<lparr>alloc := Suc (alloc c)\<rparr>)"

text \<open>
  What \<^verbatim>\<open>container.go\<close> calls and does not define is a parameter of the model: the
  extraction of a descriptor from a Go function value (of type \<open>'f\<close>), the diagnostic
  graph (a state \<open>'g\<close> with nodes \<open>'n\<close>; creating a node can fail), the two
  marker predicates on types, and the methods of the resolvers and providers, which may
  change the whole container.
\<close>

record ('n, 'g, 'h, 'f) env =
  ExtractProviderDescriptor :: "'f \<Rightarrow> error + ProviderDescriptor"
  locationGraphNode :: "Location \<Rightarrow> Scope option \<Rightarrow> 'g \<Rightarrow> error + ('n \<times> 'g)"
  typeGraphNode :: "Type \<Rightarrow> 'g \<Rightarrow> error + ('n \<times> 'g)"
  addGraphEdge :: "'n \<Rightarrow> 'n \<Rightarrow> 'g \<Rightarrow> 'g"
  SetColor :: "'n \<Rightarrow> string \<Rightarrow> 'g \<Rightarrow> 'g"
  SetComment :: "'n \<Rightarrow> string \<Rightarrow> 'g \<Rightarrow> 'g"
  isAutoGroupType :: "Type \<Rightarrow> bool"
  isOnePerScopeType :: "Type \<Rightarrow> bool"
  describeLocation :: "resolver \<Rightarrow> string"
  resolver_addNode :: "resolver \<Rightarrow> node \<Rightarrow> nat \<Rightarrow> ('g, 'h) container \<Rightarrow> error option \<times> ('g, 'h) container"
  resolver_resolve :: "resolver \<Rightarrow> ('g, 'h) container \<Rightarrow> Scope option \<Rightarrow> Location \<Rightarrow> (error + Value) \<times> ('g, 'h) container"
  resolveValues :: "node \<Rightarrow> ('g, 'h) container \<Rightarrow> (error + Value list) \<times> ('g, 'h) container"

definition newContainer :: "'g \<Rightarrow> 'h \<Rightarrow> ('g, 'h) container" where
  "newContainer g h =
     \<lparr>resolvers = Map.empty, scopes = Map.empty, resolveStack = [], callerStack = [],
      callerMap = Map.empty, graph = g, store = h, alloc = 0\<rparr>"

definition markGraphNodeAsUsed :: "('n, 'g, 'h, 'f) env \<Rightarrow> 'n \<Rightarrow> ('g, 'h) container \<Rightarrow> ('g, 'h) container" where
  "markGraphNodeAsUsed E n c = c\<lparr>graph := SetColor E n ''black'' (graph c)\<rparr>"

definition markGraphNodeAsFailed :: "('n, 'g, 'h, 'f) env \<Rightarrow> 'n \<Rightarrow> ('g, 'h) container \<Rightarrow> ('g, 'h) container" where
  "markGraphNodeAsFailed E n c = c\<lparr>graph := SetColor E n ''red'' (graph c)\<rparr>"

subsection \<open>\<^verbatim>\<open>createOrGetScope\<close>\<close>

text \<open>
  \<^verbatim>\<open>newScope\<close> allocates the scope object. The receiver of \<^verbatim>\<open>createOrGetScope\<close> is a
  copy of the container struct, but \<^verbatim>\<open>scopes\<close> is a Go map, which the copy shares, so
  the new entry is seen by the container.
\<close>

definition newScope :: "string \<Rightarrow> ('g, 'h) container \<Rightarrow> Scope \<times> ('g, 'h) container" where
  "newScope name c = (case new c of (a, c') \<Rightarrow> (Scope a name, c'))"

definition createOrGetScope :: "string \<Rightarrow> ('g, 'h) container \<Rightarrow> Scope \<times> ('g, 'h) container" where
  "createOrGetScope name c =
     (case scopes c name of
        Some s \<Rightarrow> (s, c)
      | None \<Rightarrow>
          (case newScope name c of
             (s, c') \<Rightarrow> (s, c'\<lparr>scopes := (scopes c')(name \<mapsto> s)\<rparr>)))"

subsection \<open>\<^verbatim>\<open>formatResolveStack\<close> and \<^verbatim>\<open>resolve\<close>\<close>

definition tab :: string where
  "tab = [CHR 0x09]"

definition nl :: string where
  "nl = [CHR 0x0A]"

text \<open>One line of the stack: \<^verbatim>\<open>"\t\t%v for %s\n"\<close>.\<close>

definition formatFrame :: "resolveFrame \<Rightarrow> string" where
  "formatFrame rk = tab @ tab @ typeString (frame_typ rk) @ '' for '' @ String (frame_loc rk) @ nl"

text \<open>The loop runs from the last index down to 0: the frames in reverse order.\<close>

definition formatResolveStack :: "('g, 'h) container \<Rightarrow> string" where
  "formatResolveStack c =
     tab @ ''while resolving:'' @ nl @ concat (map formatFrame (rev (resolveStack c)))"

definition cantResolve :: "Type \<Rightarrow> Location \<Rightarrow> string \<Rightarrow> error" where
  "cantResolve t caller stack =
     Errorf (''can't resolve type '' @ typeString t @ '' for '' @ String caller @ '':'' @ nl @ stack)"

definition notInScope :: "Location \<Rightarrow> error" where
  "notInScope caller =
     Errorf (''trying to resolve <nil> for '' @ String caller @ '' but not inside of any scope'')"

text \<open>
  \<^verbatim>\<open>resolve\<close>. The last step re-slices \<^verbatim>\<open>resolveStack[:len-1]\<close>, which panics on an
  empty stack (the resolver may have changed it).
\<close>

definition resolve ::
  "('n, 'g, 'h, 'f) env \<Rightarrow> ProviderInput \<Rightarrow> Scope option \<Rightarrow> Location \<Rightarrow> ('g, 'h) container
     \<Rightarrow> (error + Value) \<times> ('g, 'h) container" where
  "resolve E inp scope caller c =
     (let c1 = c\<lparr>resolveStack := resolveStack c @ [\<lparr>frame_loc = caller, frame_typ = in_Type inp\<rparr>]\<rparr> in
      case typeGraphNode E (in_Type inp) (graph c1) of
        Inl err \<Rightarrow> (Inl err, c1)
      | Inr (typeNode, g) \<Rightarrow>
          (let c2 = c1\<lparr>graph := g\<rparr> in
           if in_Type inp = scopeType then
             (case scope of
                None \<Rightarrow> (Inl (notInScope caller), c2)
              | Some s \<Rightarrow> (Inr (ValueOf_Scope s), markGraphNodeAsUsed E typeNode c2))
           else
             (case resolvers c2 (in_Type inp) of
                None \<Rightarrow>
                  if Optional inp then (Inr (Zero (in_Type inp)), c2)
                  else
                    (let c3 = markGraphNodeAsFailed E typeNode c2 in
                     (Inl (cantResolve (in_Type inp) caller (formatResolveStack c3)), c3))
              | Some vr \<Rightarrow>
                  (case resolver_resolve E vr c2 scope caller of
                     (Inl err, c3) \<Rightarrow> (Inl err, markGraphNodeAsFailed E typeNode c3)
                   | (Inr res, c3) \<Rightarrow>
                       (let c4 = markGraphNodeAsUsed E typeNode c3 in
                        if resolveStack c4 = [] then (Inl (Panic ''slice bounds out of range''), c4)
                        else (Inr res, c4\<lparr>resolveStack := butlast (resolveStack c4)\<rparr>))))))"

subsection \<open>\<^verbatim>\<open>call\<close>\<close>

text \<open>The loop over the inputs of the provider: it stops at the first error.\<close>

fun resolveInputs ::
  "('n, 'g, 'h, 'f) env \<Rightarrow> ProviderInput list \<Rightarrow> Scope option \<Rightarrow> Location \<Rightarrow> ('g, 'h) container
     \<Rightarrow> (error + Value list) \<times> ('g, 'h) container" where
  "resolveInputs E [] scope l c = (Inr [], c)"
| "resolveInputs E (inp # ins) scope l c =
     (case resolve E inp scope l c of
        (Inl err, c1) \<Rightarrow> (Inl err, c1)
      | (Inr val, c1) \<Rightarrow>
          (case resolveInputs E ins scope l c1 of
             (Inl err, c2) \<Rightarrow> (Inl err, c2)
           | (Inr vals, c2) \<Rightarrow> (Inr (val # vals), c2)))"

definition cyclicDependency :: "Location \<Rightarrow> error" where
  "cyclicDependency l = Errorf (''cyclic dependency: '' @ Name l @ '' -> '' @ Name l)"

definition call ::
  "('n, 'g, 'h, 'f) env \<Rightarrow> ProviderDescriptor \<Rightarrow> Scope option \<Rightarrow> ('g, 'h) container
     \<Rightarrow> (error + Value list) \<times> ('g, 'h) container" where
  "call E constructor scope c =
     (let l = Location constructor in
      case locationGraphNode E l scope (graph c) of
        Inl err \<Rightarrow> (Inl err, c)
      | Inr (graphNode, g) \<Rightarrow>
          (let c1 = markGraphNodeAsFailed E graphNode (c\<lparr>graph := g\<rparr>) in
           if callerMap c1 l = Some True then (Inl (cyclicDependency l), c1)
           else
             (let c2 = c1\<lparr>callerMap := (callerMap c1)(l \<mapsto> True)\<rparr>;
                  c3 = c2\<lparr>callerStack := callerStack c2 @ [l]\<rparr>
              in case resolveInputs E (Inputs constructor) scope l c3 of
                   (Inl err, c4) \<Rightarrow> (Inl err, c4)
                 | (Inr inVals, c4) \<Rightarrow>
                     (let c5 = c4\<lparr>callerMap := (callerMap c4)(l := None)\<rparr> in
                      if callerStack c5 = [] then (Inl (Panic ''slice bounds out of range''), c5)
                      else
                        (let c6 = c5\<lparr>callerStack := butlast (callerStack c5)\<rparr> in
                         case Fn constructor inVals of
                           Inl err \<Rightarrow>
                             (Inl (Wrapf err (''error calling constructor '' @ String l)), c6)
                         | Inr out \<Rightarrow> (Inr out, markGraphNodeAsUsed E graphNode c6))))))"

subsection \<open>\<^verbatim>\<open>addNode\<close>\<close>

text \<open>The first loop: one edge per input, and \<^verbatim>\<open>hasScopeParam\<close>.\<close>

fun addNode_inputs ::
  "('n, 'g, 'h, 'f) env \<Rightarrow> 'n \<Rightarrow> ProviderInput list \<Rightarrow> bool \<Rightarrow> ('g, 'h) container
     \<Rightarrow> (error + bool) \<times> ('g, 'h) container" where
  "addNode_inputs E constructorGraphNode [] hasScopeParam c = (Inr hasScopeParam, c)"
| "addNode_inputs E constructorGraphNode (inp # ins) hasScopeParam c =
     (let hasScopeParam' = (if in_Type inp = scopeType then True else hasScopeParam) in
      case typeGraphNode E (in_Type inp) (graph c) of
        Inl err \<Rightarrow> (Inl err, c)
      | Inr (typeNode, g) \<Rightarrow>
          addNode_inputs E constructorGraphNode ins hasScopeParam'
            (c\<lparr>graph := addGraphEdge E typeNode constructorGraphNode g\<rparr>))"

definition returnTypeError :: "Type \<Rightarrow> error" where
  "returnTypeError t =
     Errorf (typeString t @ '' cannot be used as a return type because '' @
             typeString (Elem t) @ '' is a one-per-scope type'')"

definition duplicateScoped :: "Type \<Rightarrow> Location \<Rightarrow> string \<Rightarrow> error" where
  "duplicateScoped t l existing =
     Errorf (''duplicate provision of type '' @ typeString t @ '' by scoped provider '' @
             String l @ nl @ tab @ ''already provided by '' @ existing)"

text \<open>The body of the loop over the outputs of a provider that becomes a \<^verbatim>\<open>simpleProvider\<close>.\<close>

definition addNode_output ::
  "('n, 'g, 'h, 'f) env \<Rightarrow> node \<Rightarrow> 'n \<Rightarrow> nat \<Rightarrow> ProviderOutput \<Rightarrow> ('g, 'h) container
     \<Rightarrow> (error + unit) \<times> ('g, 'h) container" where
  "addNode_output E nd constructorGraphNode i out c =
     (let t0 = out_Type out in
      if Kind t0 = reflect_Map \<and> isOnePerScopeType E (Elem t0) \<and> Kind (Key t0) = reflect_String
      then (Inl (returnTypeError t0), c)
      else
        (let t = (if Kind t0 = reflect_Slice \<and> isAutoGroupType E (Elem t0) then Elem t0 else t0) in
         case resolvers c t of
           Some vr \<Rightarrow>
             (case resolver_addNode E vr nd i c of
                (Some err, c1) \<Rightarrow> (Inl err, c1)
              | (None, c1) \<Rightarrow> (Inr (), c1))
         | None \<Rightarrow>
             if isAutoGroupType E t then
               (let sliceType = SliceOf t in
                case typeGraphNode E sliceType (graph c) of
                  Inl err \<Rightarrow> (Inl err, c)
                | Inr (typeNode, g) \<Rightarrow>
                    (case new (c\<lparr>graph := SetComment E typeNode ''auto-group'' g\<rparr>) of
                       (a, c1) \<Rightarrow>
                         (let r = groupResolver a t sliceType in
                          case resolver_addNode E r nd i c1 of
                            (Some err, c2) \<Rightarrow> (Inl err, c2)
                          | (None, c2) \<Rightarrow>
                              (let c3 = c2\<lparr>resolvers := (resolvers c2)(t \<mapsto> r)\<rparr> in
                               case new c3 of
                                 (b, c4) \<Rightarrow>
                                   (let c5 = c4\<lparr>resolvers := (resolvers c4)(sliceType \<mapsto> sliceGroupResolver b r)\<rparr>
                                    in (Inr (), c5\<lparr>graph := addGraphEdge E constructorGraphNode typeNode (graph c5)\<rparr>))))))
             else if isOnePerScopeType E t then
               (let mapType = MapOf stringType t in
                case typeGraphNode E mapType (graph c) of
                  Inl err \<Rightarrow> (Inl err, c)
                | Inr (typeNode, g) \<Rightarrow>
                    (case new (c\<lparr>graph := SetComment E typeNode ''one-per-scope'' g\<rparr>) of
                       (a, c1) \<Rightarrow>
                         (let r = onePerScopeResolver a t mapType in
                          case resolver_addNode E r nd i c1 of
                            (Some err, c2) \<Rightarrow> (Inl err, c2)
                          | (None, c2) \<Rightarrow>
                              (let c3 = c2\<lparr>resolvers := (resolvers c2)(t \<mapsto> r)\<rparr> in
                               case new c3 of
                                 (b, c4) \<Rightarrow>
                                   (let c5 = c4\<lparr>resolvers := (resolvers c4)(mapType \<mapsto> mapOfOnePerScopeResolver b r)\<rparr>
                                    in (Inr (), c5\<lparr>graph := addGraphEdge E constructorGraphNode typeNode (graph c5)\<rparr>))))))
             else
               (case typeGraphNode E t (graph c) of
                  Inl err \<Rightarrow> (Inl err, c)
                | Inr (typeNode, g) \<Rightarrow>
                    (case new (c\<lparr>graph := g\<rparr>) of
                       (a, c1) \<Rightarrow>
                         (let c2 = c1\<lparr>resolvers := (resolvers c1)(t \<mapsto> simpleResolver a nd t)\<rparr>
                          in (Inr (), c2\<lparr>graph := addGraphEdge E constructorGraphNode typeNode (graph c2)\<rparr>))))))"

fun addNode_outputs ::
  "('n, 'g, 'h, 'f) env \<Rightarrow> node \<Rightarrow> 'n \<Rightarrow> nat \<Rightarrow> ProviderOutput list \<Rightarrow> ('g, 'h) container
     \<Rightarrow> (error + unit) \<times> ('g, 'h) container" where
  "addNode_outputs E nd constructorGraphNode i [] c = (Inr (), c)"
| "addNode_outputs E nd constructorGraphNode i (out # outs) c =
     (case addNode_output E nd constructorGraphNode i out c of
        (Inl err, c1) \<Rightarrow> (Inl err, c1)
      | (Inr u, c1) \<Rightarrow> addNode_outputs E nd constructorGraphNode (Suc i) outs c1)"

text \<open>The body of the loop over the outputs of a provider that becomes a \<^verbatim>\<open>scopeDepProvider\<close>.\<close>

definition addNode_scopedOutput ::
  "('n, 'g, 'h, 'f) env \<Rightarrow> ProviderDescriptor \<Rightarrow> node \<Rightarrow> 'n \<Rightarrow> nat \<Rightarrow> ProviderOutput
     \<Rightarrow> ('g, 'h) container \<Rightarrow> (error + unit) \<times> ('g, 'h) container" where
  "addNode_scopedOutput E constructor nd constructorGraphNode i out c =
     (let t = out_Type out in
      case resolvers c t of
        Some existing \<Rightarrow>
          (Inl (duplicateScoped t (Location constructor) (describeLocation E existing)), c)
      | None \<Rightarrow>
          (case new c of
             (a, c1) \<Rightarrow>
               (let c2 = c1\<lparr>resolvers := (resolvers c1)(t \<mapsto> scopeDepResolver a t i nd)\<rparr> in
                case typeGraphNode E t (graph c2) of
                  Inl err \<Rightarrow> (Inl err, c2)
                | Inr (typeNode, g) \<Rightarrow>
                    (Inr (), c2\<lparr>graph := addGraphEdge E constructorGraphNode typeNode g\<rparr>))))"

fun addNode_scopedOutputs ::
  "('n, 'g, 'h, 'f) env \<Rightarrow> ProviderDescriptor \<Rightarrow> node \<Rightarrow> 'n \<Rightarrow> nat \<Rightarrow> ProviderOutput list
     \<Rightarrow> ('g, 'h) container \<Rightarrow> (error + unit) \<times> ('g, 'h) container" where
  "addNode_scopedOutputs E constructor nd constructorGraphNode i [] c = (Inr (), c)"
| "addNode_scopedOutputs E constructor nd constructorGraphNode i (out # outs) c =
     (case addNode_scopedOutput E constructor nd constructorGraphNode i out c of
        (Inl err, c1) \<Rightarrow> (Inl err, c1)
      | (Inr u, c1) \<Rightarrow> addNode_scopedOutputs E constructor nd constructorGraphNode (Suc i) outs c1)"

definition addNode ::
  "('n, 'g, 'h, 'f) env \<Rightarrow> ProviderDescriptor \<Rightarrow> Scope option \<Rightarrow> ('g, 'h) container
     \<Rightarrow> (error + node) \<times> ('g, 'h) container" where
  "addNode E constructor scope c =
     (case locationGraphNode E (Location constructor) scope (graph c) of
        Inl err \<Rightarrow> (Inl err, c)
      | Inr (constructorGraphNode, g) \<Rightarrow>
          (case addNode_inputs E constructorGraphNode (Inputs constructor) False (c\<lparr>graph := g\<rparr>) of
             (Inl err, c1) \<Rightarrow> (Inl err, c1)
           | (Inr hasScopeParam, c1) \<Rightarrow>
               if scope \<noteq> None \<or> \<not> hasScopeParam then
                 (case new c1 of
                    (a, c2) \<Rightarrow>
                      (let nd = simpleProvider a constructor scope in
                       case locationGraphNode E (Location constructor) scope (graph c2) of
                         Inl err \<Rightarrow> (Inl err, c2)
                       | Inr (constructorGraphNode', g') \<Rightarrow>
                           (case addNode_outputs E nd constructorGraphNode' 0 (Outputs constructor)
                                   (c2\<lparr>graph := g'\<rparr>) of
                              (Inl err, c3) \<Rightarrow> (Inl err, c3)
                            | (Inr u, c3) \<Rightarrow> (Inr nd, c3))))
               else
                 (case new c1 of
                    (a, c2) \<Rightarrow>
                      (let nd = scopeDepProvider a constructor in
                       case addNode_scopedOutputs E constructor nd constructorGraphNode 0
                               (Outputs constructor) c2 of
                         (Inl err, c3) \<Rightarrow> (Inl err, c3)
                       | (Inr u, c3) \<Rightarrow> (Inr nd, c3)))))"

subsection \<open>\<^verbatim>\<open>run\<close>\<close>

definition run :: "('n, 'g, 'h, 'f) env \<Rightarrow> 'f \<Rightarrow> ('g, 'h) container \<Rightarrow> error option \<times> ('g, 'h) container" where
  "run E invoker c =
     (case ExtractProviderDescriptor E invoker of
        Inl err \<Rightarrow> (Some err, c)
      | Inr rctr \<Rightarrow>
          if length (Outputs rctr) > 0 then
            (Some (Errorf (''invoker function cannot have return values other than error: '' @
                           String (Location rctr))), c)
          else
            (case addNode E rctr None c of
               (Inl err, c1) \<Rightarrow> (Some err, c1)
             | (Inr (scopeDepProvider a d), c1) \<Rightarrow>
                 (Some (Errorf ''cannot run scoped provider as an invoker''), c1)
             | (Inr (simpleProvider a d s), c1) \<Rightarrow>
                 (case resolveValues E (simpleProvider a d s) c1 of
                    (Inl err, c2) \<Rightarrow> (Some err, c2)
                  | (Inr vals, c2) \<Rightarrow> (None, c2))))"

section \<open>Conditions on the parameters\<close>

text \<open>The diagnostic graph creates every node it is asked for.\<close>

definition graphNodesCreated :: "('n, 'g, 'h, 'f) env \<Rightarrow> bool" where
  "graphNodesCreated E \<longleftrightarrow>
     (\<forall>l s g. \<exists>n g'. locationGraphNode E l s g = Inr (n, g')) \<and>
     (\<forall>t g. \<exists>n g'. typeGraphNode E t g = Inr (n, g'))"

text \<open>
  The \<^verbatim>\<open>addNode\<close> method of a group resolver returns no error (the specification: a
  group resolver appends the provider to its list).
\<close>

definition groupAccepts :: "('n, 'g, 'h, 'f) env \<Rightarrow> bool" where
  "groupAccepts E \<longleftrightarrow> (\<forall>a t s nd i c. fst (resolver_addNode E (groupResolver a t s) nd i c) = None)"

text \<open>
  The \<^verbatim>\<open>addNode\<close> methods of the resolvers work on the resolver they are called on
  (the specification: they append the provider to a list, or fail); none of them assigns
  to the registry of the container.
\<close>

definition keepsRegistry :: "('n, 'g, 'h, 'f) env \<Rightarrow> bool" where
  "keepsRegistry E \<longleftrightarrow> (\<forall>r nd i c. resolvers (snd (resolver_addNode E r nd i c)) = resolvers c)"

text \<open>
  A simple type: not of the forbidden map shape, not a slice of an auto-group type, and
  neither an auto-group nor a one-per-scope type. \<^verbatim>\<open>addNode\<close> gives it a
  \<^verbatim>\<open>simpleResolver\<close>.
\<close>

definition simpleType :: "('n, 'g, 'h, 'f) env \<Rightarrow> Type \<Rightarrow> bool" where
  "simpleType E t \<longleftrightarrow>
     \<not> (Kind t = reflect_Map \<and> isOnePerScopeType E (Elem t) \<and> Kind (Key t) = reflect_String) \<and>
     \<not> (Kind t = reflect_Slice \<and> isAutoGroupType E (Elem t)) \<and>
     \<not> isAutoGroupType E t \<and> \<not> isOnePerScopeType E t"

text \<open>The key under which \<^verbatim>\<open>addNode\<close> looks an output type up: a slice of an auto-group type is unwrapped.\<close>

definition outputKey :: "('n, 'g, 'h, 'f) env \<Rightarrow> Type \<Rightarrow> Type" where
  "outputKey E t0 = (if Kind t0 = reflect_Slice \<and> isAutoGroupType E (Elem t0) then Elem t0 else t0)"

text \<open>The registry holds a group resolver for \<open>t\<close> and the slice view of the same resolver.\<close>

definition groupInstalled :: "Type \<Rightarrow> ('g, 'h) container \<Rightarrow> bool" where
  "groupInstalled t c \<longleftrightarrow>
     (\<exists>a b. resolvers c t = Some (groupResolver a t (SliceOf t)) \<and>
            resolvers c (SliceOf t) = Some (sliceGroupResolver b (groupResolver a t (SliceOf t))))"


section \<open>An instance of the parameters\<close>

text \<open>
  The concrete inputs below run in a small environment: a diagnostic graph without state
  whose nodes are always created, \<^verbatim>\<open>X\<close> as the only auto-group type, \<^verbatim>\<open>Y\<close> as the
  only one-per-scope type, resolvers of group and one-per-scope kind that accept every
  provider, and all other resolvers refusing a second provider. No resolver produces a
  value: the inputs below never reach one.
\<close>

definition typeA :: Type where
  "typeA = OtherKind ''pkg.A''"

definition typeB :: Type where
  "typeB = OtherKind ''pkg.B''"

definition typeX :: Type where
  "typeX = OtherKind ''X''"

definition typeY :: Type where
  "typeY = OtherKind ''Y''"

definition locA :: Location where
  "locA = Loc ''ProvideA'' ''pkg.ProvideA (a.go:10)''"

definition locB :: Location where
  "locB = Loc ''ProvideB'' ''pkg.ProvideB (b.go:20)''"

definition env0 :: "(unit, unit, unit, ProviderDescriptor) env" where
  "env0 =
     \<lparr>ExtractProviderDescriptor = Inr,
      locationGraphNode = (\<lambda>l s g. Inr ((), ())),
      typeGraphNode = (\<lambda>t g. Inr ((), ())),
      addGraphEdge = (\<lambda>a b g. g),
      SetColor = (\<lambda>n col g. g),
      SetComment = (\<lambda>n com g. g),
      isAutoGroupType = (\<lambda>t. t = typeX),
      isOnePerScopeType = (\<lambda>t. t = typeY),
      describeLocation = (\<lambda>r. case r of
          simpleResolver a (simpleProvider b d s) t \<Rightarrow> String (Location d)
        | supplyResolver a t v l \<Rightarrow> String l
        | scopeDepResolver a t i (scopeDepProvider b d) \<Rightarrow> String (Location d)
        | _ \<Rightarrow> ''resolver''),
      resolver_addNode = (\<lambda>r nd i c. case r of
          groupResolver a t s \<Rightarrow> (None, c)
        | sliceGroupResolver a r' \<Rightarrow> (None, c)
        | onePerScopeResolver a t m \<Rightarrow> (None, c)
        | _ \<Rightarrow> (Some (Errorf ''duplicate provision''), c)),
      resolver_resolve = (\<lambda>r c s l. (Inl (Errorf ''no value''), c)),
      resolveValues = (\<lambda>nd c. (Inl (Errorf ''no value''), c))\<rparr>"

definition emptyContainer :: "(unit, unit) container" where
  "emptyContainer = newContainer () ()"

text \<open>A provider of \<^verbatim>\<open>A\<close> that needs a \<^verbatim>\<open>B\<close>.\<close>

definition provideA :: ProviderDescriptor where
  "provideA =
     \<lparr>Inputs = [ProviderInput typeB False], Outputs = [ProviderOutput typeA],
      Fn = (\<lambda>vs. Inr [Val typeA 1]), Location = locA\<rparr>"

text \<open>A provider of \<^verbatim>\<open>B\<close> that needs an \<^verbatim>\<open>A\<close>.\<close>

definition provideB :: ProviderDescriptor where
  "provideB =
     \<lparr>Inputs = [ProviderInput typeA False], Outputs = [ProviderOutput typeB],
      Fn = (\<lambda>vs. Inr [Val typeB 2]), Location = locB\<rparr>"

text \<open>The container after the registration of \<^verbatim>\<open>ProvideA\<close> and \<^verbatim>\<open>ProvideB\<close>.\<close>

definition registered :: "(unit, unit) container" where
  "registered =
     emptyContainer
       \<lparr>resolvers := [typeA \<mapsto> simpleResolver 1 (simpleProvider 0 provideA None) typeA,
                      typeB \<mapsto> simpleResolver 3 (simpleProvider 2 provideB None) typeB],
        alloc := 4\<rparr>"

text \<open>An invoker with a scope input.\<close>

definition scopedInvoker :: ProviderDescriptor where
  "scopedInvoker =
     \<lparr>Inputs = [ProviderInput typeA False, ProviderInput scopeType False], Outputs = [],
      Fn = (\<lambda>vs. Inr []), Location = locB\<rparr>"

text \<open>A provider that returns a slice of the auto-group type.\<close>

definition provideXs :: ProviderDescriptor where
  "provideXs =
     \<lparr>Inputs = [], Outputs = [ProviderOutput (SliceOf typeX)],
      Fn = (\<lambda>vs. Inr [Val (SliceOf typeX) 3]), Location = locB\<rparr>"

text \<open>A provider that returns a map from string to the one-per-scope type.\<close>

definition provideYMap :: ProviderDescriptor where
  "provideYMap =
     \<lparr>Inputs = [], Outputs = [ProviderOutput (MapOf stringType typeY)],
      Fn = (\<lambda>vs. Inr [Val (MapOf stringType typeY) 4]), Location = locB\<rparr>"

text \<open>A provider of an \<^verbatim>\<open>A\<close> and of a slice of the auto-group type.\<close>

definition provideAXs :: ProviderDescriptor where
  "provideAXs =
     \<lparr>Inputs = [], Outputs = [ProviderOutput typeA, ProviderOutput (SliceOf typeX)],
      Fn = (\<lambda>vs. Inr [Val typeA 8, Val (SliceOf typeX) 9]), Location = locB\<rparr>"





text \<open>A container with one frame on the resolve stack.\<close>

definition oneFrame :: "(unit, unit) container" where
  "oneFrame = emptyContainer\<lparr>resolveStack := [\<lparr>frame_loc = locB, frame_typ = typeA\<rparr>]\<rparr>"


lemma graphNodesCreated_env0: "graphNodesCreated env0"
  by (simp add: graphNodesCreated_def env0_def)

lemma groupAccepts_env0: "groupAccepts env0"
  by (simp add: groupAccepts_def env0_def)

lemma instance_types:
  "typeA \<noteq> typeB" "typeA \<noteq> typeX" "typeA \<noteq> typeY" "typeB \<noteq> typeX" "typeB \<noteq> typeY"
  "typeA \<noteq> scopeType" "typeB \<noteq> scopeType"
  "Kind typeA = reflect_Other" "Kind typeB = reflect_Other"
  by (simp_all add: typeA_def typeB_def typeX_def typeY_def scopeType_def)

lemma provideA_registered:
  "addNode env0 provideA None emptyContainer =
     (Inr (simpleProvider 0 provideA None),
      emptyContainer\<lparr>resolvers := [typeA \<mapsto> simpleResolver 1 (simpleProvider 0 provideA None) typeA],
                     alloc := 2\<rparr>)"
  using instance_types
  by (simp add: addNode_def addNode_output_def env0_def emptyContainer_def newContainer_def new_def
      Let_def provideA_def)

lemma registered_by_addNode:
  "addNode env0 provideB None (snd (addNode env0 provideA None emptyContainer)) =
     (Inr (simpleProvider 2 provideB None), registered)"
  using instance_types
  by (simp add: provideA_registered,
      simp add: addNode_def addNode_output_def env0_def emptyContainer_def newContainer_def new_def
        Let_def provideB_def registered_def fun_upd_twist)

lemma keepsRegistry_env0: "keepsRegistry env0"
  by (simp add: keepsRegistry_def env0_def split: resolver.splits)


lemma simpleType_typeA: "simpleType env0 typeA"
  using instance_types by (simp add: simpleType_def env0_def typeA_def)

lemma provideAXs_registered:
  "\<exists>c'. addNode env0 provideAXs None emptyContainer = (Inr (simpleProvider 0 provideAXs None), c')"
  using instance_types
  by (simp add: addNode_def addNode_output_def env0_def emptyContainer_def newContainer_def new_def
      Let_def provideAXs_def)

lemma graphNodesCreated_location:
  "graphNodesCreated E \<Longrightarrow> \<exists>n g'. locationGraphNode E l s g = Inr (n, g')"
  by (simp add: graphNodesCreated_def)

lemma graphNodesCreated_type:
  "graphNodesCreated E \<Longrightarrow> \<exists>n g'. typeGraphNode E t g = Inr (n, g')"
  by (simp add: graphNodesCreated_def)

section \<open>Scopes\<close>

lemma createOrGetScope_memo:
  "scopes (snd (createOrGetScope n c)) n = Some (fst (createOrGetScope n c))"
  by (simp add: createOrGetScope_def newScope_def new_def split: option.splits)

lemma createOrGetScope_keeps:
  "scopes c m = Some s \<Longrightarrow> scopes (snd (createOrGetScope k c)) m = Some s"
  by (auto simp add: createOrGetScope_def newScope_def new_def split: option.splits)

lemma lookups_keep:
  "scopes c m = Some s \<Longrightarrow> scopes (foldl (\<lambda>c k. snd (createOrGetScope k c)) c ns) m = Some s"
  by (induction ns arbitrary: c) (simp_all add: createOrGetScope_keeps)

lemma createOrGetScope_hit: "scopes c n = Some s \<Longrightarrow> createOrGetScope n c = (s, c)"
  by (simp add: createOrGetScope_def)

text \<open>
  C9. Let the first call \<open>createOrGetScope n\<close> on a container \<open>c\<close> return the scope \<open>s\<close>
  and leave the container \<open>c1\<close>. Then \<open>s\<close> is memoized under \<open>n\<close> in \<open>c1\<close>; after any
  further lookups (of the names \<open>ns\<close>, in this order) a call with the name \<open>n\<close> returns
  the same object \<open>s\<close>, address included, and changes nothing; and when \<open>c\<close> had no scope
  of that name, \<open>s\<close> is a new object at the next free address and the only changes to the
  container are that allocation and the new entry.
\<close>

theorem createOrGetScope_identity:
  "(let (s, c1) = createOrGetScope n c;
        c2 = foldl (\<lambda>c k. snd (createOrGetScope k c)) c1 ns
    in createOrGetScope n c2 = (s, c2) \<and> scopes c1 n = Some s \<and>
       (scopes c n = None \<longrightarrow>
          s = Scope (alloc c) n \<and>
          c1 = c\<lparr>alloc := Suc (alloc c), scopes := (scopes c)(n \<mapsto> s)\<rparr>))"
proof -
  obtain s c1 where sc: "createOrGetScope n c = (s, c1)"
    by (cases "createOrGetScope n c")
  have m: "scopes c1 n = Some s"
    using createOrGetScope_memo [of n c] sc by simp
  let ?c2 = "foldl (\<lambda>c k. snd (createOrGetScope k c)) c1 ns"
  have "scopes ?c2 n = Some s"
    using m by (rule lookups_keep)
  then have again: "createOrGetScope n ?c2 = (s, ?c2)"
    by (rule createOrGetScope_hit)
  have fresh: "scopes c n = None \<longrightarrow>
      s = Scope (alloc c) n \<and> c1 = c\<lparr>alloc := Suc (alloc c), scopes := (scopes c)(n \<mapsto> s)\<rparr>"
    using sc by (auto simp add: createOrGetScope_def newScope_def new_def)
  show ?thesis
    using sc m again fresh by simp
qed

theorem createOrGetScope_identity_witness:
  "scopes emptyContainer ''a'' = None \<and>
   fst (createOrGetScope ''a'' emptyContainer) = Scope 0 ''a'' \<and>
   fst (createOrGetScope ''a''
          (foldl (\<lambda>c k. snd (createOrGetScope k c)) (snd (createOrGetScope ''a'' emptyContainer))
             [''b'', ''a''])) = Scope 0 ''a''"
  using createOrGetScope_identity [of "''a''" emptyContainer "[''b'', ''a'']"]
  by (simp add: createOrGetScope_def newScope_def new_def newContainer_def emptyContainer_def)

section \<open>Resolution of one input\<close>

text \<open>
  C8. For an input of the scope type: with no active scope \<open>resolve\<close> returns an error,
  whatever else happens. When the graph node of the type is created, \<open>resolve\<close> with an
  active scope \<open>s\<close> returns \<open>s\<close> wrapped as a value (the frame stays on the resolve stack
  and the node is coloured), and with no active scope the error is the one that says so.
  The registry is not consulted: with any other registry \<open>R\<close> and any other behaviour \<open>f\<close>
  of the resolvers the result is the same, and the container differs only by \<open>R\<close>.
\<close>

theorem resolve_scope_type:
  assumes "in_Type inp = scopeType"
  shows "(\<exists>err. fst (resolve E inp None caller c) = Inl err) \<and>
    (\<forall>typeNode g. typeGraphNode E scopeType (graph c) = Inr (typeNode, g) \<longrightarrow>
       resolve E inp (Some s) caller c =
         (Inr (ValueOf_Scope s),
          c\<lparr>resolveStack := resolveStack c @ [\<lparr>frame_loc = caller, frame_typ = scopeType\<rparr>],
            graph := SetColor E typeNode ''black'' g\<rparr>) \<and>
       fst (resolve E inp None caller c) = Inl (notInScope caller)) \<and>
    (\<forall>R f. resolve (E\<lparr>resolver_resolve := f\<rparr>) inp scope caller (c\<lparr>resolvers := R\<rparr>) =
       (fst (resolve E inp scope caller c), (snd (resolve E inp scope caller c))\<lparr>resolvers := R\<rparr>))"
  using assms
  by (auto simp add: resolve_def Let_def markGraphNodeAsUsed_def split: sum.splits option.splits prod.splits)

theorem resolve_scope_type_witness:
  "in_Type (ProviderInput scopeType False) = scopeType \<and>
   fst (resolve env0 (ProviderInput scopeType False) (Some (Scope 0 ''a'')) locA emptyContainer) = Inr (ValueOf_Scope (Scope 0 ''a'')) \<and>
   fst (resolve env0 (ProviderInput scopeType False) None locA emptyContainer) = Inl (notInScope locA)"
  using resolve_scope_type [of "ProviderInput scopeType False" env0 locA emptyContainer "Scope 0 ''a''"]
  by (simp add: env0_def)

text \<open>
  C7. For an input whose type is not the scope type (that one is answered before the
  registry is looked at) and has no resolver in the registry, when the graph node of the
  type is created: an optional input resolves to the zero value of its type; a required
  input fails with the error "can't resolve type ... for ...", whose message ends with the
  formatted resolve stack of the container: the header, then the frame of this very call,
  then the older frames from the most recent to the oldest.
\<close>

theorem resolve_no_resolver:
  assumes "in_Type inp \<noteq> scopeType"
    and "resolvers c (in_Type inp) = None"
    and "typeGraphNode E (in_Type inp) (graph c) = Inr (typeNode, g)"
  shows "(Optional inp \<longrightarrow> fst (resolve E inp scope caller c) = Inr (Zero (in_Type inp))) \<and>
    (\<not> Optional inp \<longrightarrow>
       (let stack = tab @ ''while resolving:'' @ nl @
                    formatFrame \<lparr>frame_loc = caller, frame_typ = in_Type inp\<rparr> @
                    concat (map formatFrame (rev (resolveStack c)))
        in fst (resolve E inp scope caller c) = Inl (cantResolve (in_Type inp) caller stack) \<and>
           stack = formatResolveStack (snd (resolve E inp scope caller c)) \<and>
           (\<exists>msg. cantResolve (in_Type inp) caller stack = Errorf msg \<and> suffix stack msg)))"
  using assms
  by (auto simp add: resolve_def Let_def markGraphNodeAsFailed_def formatResolveStack_def
      cantResolve_def suffix_def)

theorem resolve_no_resolver_witness:
  "in_Type (ProviderInput typeB True) \<noteq> scopeType \<and> resolvers oneFrame typeB = None \<and>
   typeGraphNode env0 typeB (graph oneFrame) = Inr ((), ()) \<and>
   fst (resolve env0 (ProviderInput typeB True) None locA oneFrame) = Inr (Zero typeB) \<and>
   fst (resolve env0 (ProviderInput typeB False) None locA oneFrame) =
     Inl (Errorf (''can't resolve type pkg.B for pkg.ProvideA (a.go:10):'' @ nl @
          tab @ ''while resolving:'' @ nl @
          tab @ tab @ ''pkg.B for pkg.ProvideA (a.go:10)'' @ nl @
          tab @ tab @ ''pkg.A for pkg.ProvideB (b.go:20)'' @ nl))"
proof -
  have h1: "in_Type (ProviderInput typeB True) \<noteq> scopeType"
    and h1': "in_Type (ProviderInput typeB False) \<noteq> scopeType"
    by (simp_all add: typeB_def scopeType_def)
  have h2: "resolvers oneFrame (in_Type (ProviderInput typeB True)) = None"
    and h2': "resolvers oneFrame (in_Type (ProviderInput typeB False)) = None"
    by (simp_all add: oneFrame_def emptyContainer_def newContainer_def)
  have h3: "typeGraphNode env0 (in_Type (ProviderInput typeB True)) (graph oneFrame) = Inr ((), ())"
    and h3': "typeGraphNode env0 (in_Type (ProviderInput typeB False)) (graph oneFrame) = Inr ((), ())"
    by (simp_all add: env0_def)
  have st: "resolveStack oneFrame = [\<lparr>frame_loc = locB, frame_typ = typeA\<rparr>]"
    by (simp add: oneFrame_def)
  show ?thesis
    using h1 h2 h3 resolve_no_resolver [OF h1 h2 h3, of None locA]
      resolve_no_resolver [OF h1' h2' h3', of None locA]
    by (simp add: st Let_def typeA_def typeB_def locA_def locB_def cantResolve_def formatFrame_def)
qed

text \<open>
  Which returns of \<open>resolve\<close> pop the frame. A value that comes from a resolver pops it
  (when the resolver hands the stack back as it got it); the scope value and the zero
  value of a missing optional input are returned with the frame still on the stack.
\<close>

lemma resolve_early_success_keeps_frame:
  assumes "in_Type inp = scopeType \<or> (resolvers c (in_Type inp) = None \<and> Optional inp)"
    and "resolve E inp scope caller c = (Inr v, c')"
  shows "resolveStack c' = resolveStack c @ [\<lparr>frame_loc = caller, frame_typ = in_Type inp\<rparr>]"
  using assms
  by (auto simp add: resolve_def Let_def markGraphNodeAsUsed_def
      split: sum.splits option.splits prod.splits if_splits)

lemma resolve_delegated_success_pops:
  assumes "in_Type inp \<noteq> scopeType" and "resolvers c (in_Type inp) = Some vr"
    and "typeGraphNode E (in_Type inp) (graph c) = Inr (typeNode, g)"
    and "resolver_resolve E vr
           (c\<lparr>resolveStack := resolveStack c @ [\<lparr>frame_loc = caller, frame_typ = in_Type inp\<rparr>],
              graph := g\<rparr>) scope caller = (Inr v, c3)"
    and "resolveStack c3 = resolveStack c @ [\<lparr>frame_loc = caller, frame_typ = in_Type inp\<rparr>]"
  shows "\<exists>c'. resolve E inp scope caller c = (Inr v, c') \<and> resolveStack c' = resolveStack c"
  using assms
  by (simp add: resolve_def Let_def markGraphNodeAsUsed_def)

text \<open>
  C2. The code at two inputs, on a fresh container with an empty resolve stack: an input
  of the scope type inside the scope \<^verbatim>\<open>a\<close>, and an optional input of a type without
  resolver. Both calls return a value without error, and both leave their frame on the
  resolve stack, which is therefore not empty at the next resolution.
\<close>

theorem resolve_success_keeps_frame:
  "resolve env0 (ProviderInput scopeType False) (Some (Scope 0 ''a'')) locA emptyContainer =
     (Inr (ValueOf_Scope (Scope 0 ''a'')),
      emptyContainer\<lparr>resolveStack := [\<lparr>frame_loc = locA, frame_typ = scopeType\<rparr>]\<rparr>) \<and>
   resolve env0 (ProviderInput typeB True) None locA emptyContainer =
     (Inr (Zero typeB), emptyContainer\<lparr>resolveStack := [\<lparr>frame_loc = locA, frame_typ = typeB\<rparr>]\<rparr>) \<and>
   resolveStack emptyContainer = []"
  by (simp add: resolve_def env0_def emptyContainer_def newContainer_def typeB_def
      scopeType_def markGraphNodeAsUsed_def)

section \<open>Calling a provider\<close>

text \<open>
  The two ways out of the loop over the inputs. After an error the container is returned
  as the failed \<open>resolve\<close> left it, with no removal; after the last input the location is
  deleted from the map and the stack loses its last element.
\<close>

lemma call_input_error_state:
  assumes "locationGraphNode E (Location p) scope (graph c) = Inr (graphNode, g)"
    and "callerMap c (Location p) \<noteq> Some True"
    and "resolveInputs E (Inputs p) scope (Location p)
           (c\<lparr>graph := SetColor E graphNode ''red'' g,
              callerMap := (callerMap c)(Location p \<mapsto> True),
              callerStack := callerStack c @ [Location p]\<rparr>) = (Inl err, c4)"
  shows "call E p scope c = (Inl err, c4)"
  using assms
  by (simp add: call_def Let_def markGraphNodeAsFailed_def)

lemma call_success_pops:
  assumes "locationGraphNode E (Location p) scope (graph c) = Inr (graphNode, g)"
    and "callerMap c (Location p) \<noteq> Some True"
    and "resolveInputs E (Inputs p) scope (Location p)
           (c\<lparr>graph := SetColor E graphNode ''red'' g,
              callerMap := (callerMap c)(Location p \<mapsto> True),
              callerStack := callerStack c @ [Location p]\<rparr>) = (Inr inVals, c4)"
    and "callerStack c4 = callerStack c @ [Location p]"
  shows "callerMap (snd (call E p scope c)) (Location p) = None \<and>
         callerStack (snd (call E p scope c)) = callerStack c"
  using assms
  by (simp add: call_def Let_def markGraphNodeAsFailed_def markGraphNodeAsUsed_def split: sum.splits)

text \<open>
  C1. The code at one input: \<^verbatim>\<open>ProvideA\<close>, which needs a \<^verbatim>\<open>B\<close> that nobody
  provides, called on a fresh container. Its location passes the cycle check; resolving
  the input fails; \<open>call\<close> returns that error, and the location is still in the caller map
  and on the caller stack.
\<close>

theorem call_error_path_keeps_loc:
  "callerMap emptyContainer (Location provideA) = None \<and>
   fst (call env0 provideA None emptyContainer) =
     Inl (Errorf (''can't resolve type pkg.B for pkg.ProvideA (a.go:10):'' @ nl @
          tab @ ''while resolving:'' @ nl @
          tab @ tab @ ''pkg.B for pkg.ProvideA (a.go:10)'' @ nl)) \<and>
   callerMap (snd (call env0 provideA None emptyContainer)) (Location provideA) = Some True \<and>
   callerStack (snd (call env0 provideA None emptyContainer)) = [Location provideA]"
  by (simp add: call_def resolve_def env0_def emptyContainer_def newContainer_def provideA_def locA_def typeB_def
      scopeType_def markGraphNodeAsFailed_def cantResolve_def formatResolveStack_def formatFrame_def Let_def)




section \<open>Registration\<close>

subsection \<open>The loop over the inputs\<close>

lemma addNode_inputs_flag:
  "addNode_inputs E gn ins h c = (Inr h', c') \<Longrightarrow>
     h' = (h \<or> (\<exists>inp \<in> set ins. in_Type inp = scopeType)) \<and> c' = c\<lparr>graph := graph c'\<rparr>"
proof (induction ins arbitrary: h c)
  case Nil
  then show ?case by simp
next
  case (Cons inp ins)
  then show ?case
    by (fastforce simp add: Let_def split: sum.splits prod.splits if_splits)
qed

lemma addNode_inputs_ok:
  "graphNodesCreated E \<Longrightarrow> \<exists>h' c'. addNode_inputs E gn ins h c = (Inr h', c')"
proof (induction ins arbitrary: h c)
  case Nil
  then show ?case by simp
next
  case (Cons inp ins)
  obtain n g where "typeGraphNode E (in_Type inp) (graph c) = Inr (n, g)"
    using graphNodesCreated_type [OF Cons.prems] by blast
  then show ?case using Cons.IH [OF Cons.prems] by (simp add: Let_def)
qed

lemma addNode_scoped_node:
  assumes "addNode E p None c = (Inr nd, c1)" and "\<exists>inp \<in> set (Inputs p). in_Type inp = scopeType"
  shows "\<exists>a. nd = scopeDepProvider a p"
  using assms
  by (auto simp add: addNode_def new_def Let_def split: sum.splits prod.splits if_splits
      dest!: addNode_inputs_flag)

lemma addNode_scoped_no_outputs:
  assumes "graphNodesCreated E" and "\<exists>inp \<in> set (Inputs p). in_Type inp = scopeType"
    and "Outputs p = []"
  shows "\<exists>c1. addNode E p None c = (Inr (scopeDepProvider (alloc c) p), c1) \<and>
     c1 = c\<lparr>graph := graph c1, alloc := Suc (alloc c)\<rparr>"
proof -
  obtain gn g where l: "locationGraphNode E (Location p) None (graph c) = Inr (gn, g)"
    using graphNodesCreated_location [OF assms(1)] by blast
  obtain h' c' where i: "addNode_inputs E gn (Inputs p) False (c\<lparr>graph := g\<rparr>) = (Inr h', c')"
    using addNode_inputs_ok [OF assms(1)] by blast
  from addNode_inputs_flag [OF i] assms(2) have h': "h'" and c': "c' = c\<lparr>graph := graph c'\<rparr>"
    by simp_all
  have a: "alloc c' = alloc c" by (subst c') simp
  have "addNode E p None c = (Inr (scopeDepProvider (alloc c) p), c'\<lparr>alloc := Suc (alloc c)\<rparr>)"
    by (simp add: addNode_def l i h' new_def assms(3) a)
  moreover have "c'\<lparr>alloc := Suc (alloc c)\<rparr> = c\<lparr>graph := graph (c'\<lparr>alloc := Suc (alloc c)\<rparr>), alloc := Suc (alloc c)\<rparr>"
    by (subst c') simp
  ultimately show ?thesis by blast
qed

lemma addNode_inputs_indep:
  "addNode_inputs (E\<lparr>resolver_resolve := h, resolveValues := f\<rparr>) gn ins b c = addNode_inputs E gn ins b c"
  by (induction ins arbitrary: b c) (simp_all add: Let_def split: sum.splits)

lemma addNode_scopedOutputs_indep:
  "addNode_scopedOutputs (E\<lparr>resolver_resolve := h, resolveValues := f\<rparr>) p nd gn i outs c =
   addNode_scopedOutputs E p nd gn i outs c"
  by (induction outs arbitrary: i c)
    (simp_all add: addNode_scopedOutput_def Let_def cong: option.case_cong sum.case_cong prod.case_cong)

lemma addNode_outputs_indep:
  "addNode_outputs (E\<lparr>resolver_resolve := h, resolveValues := f\<rparr>) nd gn i outs c =
   addNode_outputs E nd gn i outs c"
  by (induction outs arbitrary: i c)
    (simp_all add: addNode_output_def Let_def cong: option.case_cong sum.case_cong prod.case_cong if_cong)

lemma addNode_indep:
  "addNode (E\<lparr>resolver_resolve := h, resolveValues := f\<rparr>) p scope c = addNode E p scope c"
  by (simp add: addNode_def addNode_inputs_indep addNode_scopedOutputs_indep addNode_outputs_indep
      cong: option.case_cong sum.case_cong prod.case_cong if_cong)

subsection \<open>Providers with a scope input and no scope binding\<close>









subsection \<open>Providers registered as simple providers\<close>


lemma outputs_append:
  "addNode_outputs E nd gn i (pre @ rest) c =
     (case addNode_outputs E nd gn i pre c of
        (Inl err, c1) \<Rightarrow> (Inl err, c1)
      | (Inr u, c1) \<Rightarrow> addNode_outputs E nd gn (i + length pre) rest c1)"
  by (induction pre arbitrary: i c) (simp_all split: prod.splits sum.splits)



lemma addNode_simple_unfold:
  assumes "graphNodesCreated E"
    and "scope \<noteq> None \<or> \<not> (\<exists>inp \<in> set (Inputs p). in_Type inp = scopeType)"
  shows "\<exists>gn c2. resolvers c2 = resolvers c \<and>
     addNode E p scope c =
       (case addNode_outputs E (simpleProvider (alloc c) p scope) gn 0 (Outputs p) c2 of
          (Inl err, c3) \<Rightarrow> (Inl err, c3)
        | (Inr u, c3) \<Rightarrow> (Inr (simpleProvider (alloc c) p scope), c3))"
proof -
  obtain gn g where l: "locationGraphNode E (Location p) scope (graph c) = Inr (gn, g)"
    using graphNodesCreated_location [OF assms(1)] by blast
  obtain h' c' where i: "addNode_inputs E gn (Inputs p) False (c\<lparr>graph := g\<rparr>) = (Inr h', c')"
    using addNode_inputs_ok [OF assms(1)] by blast
  from addNode_inputs_flag [OF i] assms(2) have h': "scope \<noteq> None \<or> \<not> h'" and c': "c' = c\<lparr>graph := graph c'\<rparr>"
    by simp_all
  have a: "alloc c' = alloc c" and r: "resolvers c' = resolvers c"
    by (subst c', simp)+
  obtain gn' g' where l': "locationGraphNode E (Location p) scope (graph c') = Inr (gn', g')"
    using graphNodesCreated_location [OF assms(1)] by blast
  have "addNode E p scope c =
       (case addNode_outputs E (simpleProvider (alloc c) p scope) gn' 0 (Outputs p)
               (c'\<lparr>alloc := Suc (alloc c), graph := g'\<rparr>) of
          (Inl err, c3) \<Rightarrow> (Inl err, c3)
        | (Inr u, c3) \<Rightarrow> (Inr (simpleProvider (alloc c) p scope), c3))"
    using h' by (simp add: addNode_def l i new_def a l' Let_def cong: prod.case_cong sum.case_cong)
  moreover have "resolvers (c'\<lparr>alloc := Suc (alloc c), graph := g'\<rparr>) = resolvers c"
    by (simp add: r)
  ultimately show ?thesis by blast
qed


lemma output_simple_fresh:
  assumes "graphNodesCreated E" and "simpleType E (out_Type out)"
    and "resolvers c (out_Type out) = None"
  shows "\<exists>c'. addNode_output E nd gn i out c = (Inr (), c') \<and>
     resolvers c' = (resolvers c)(out_Type out \<mapsto> simpleResolver (alloc c) nd (out_Type out))"
proof -
  obtain n g where "typeGraphNode E (out_Type out) (graph c) = Inr (n, g)"
    using graphNodesCreated_type [OF assms(1)] by blast
  moreover from assms(2) have
    "\<not> (Kind (out_Type out) = reflect_Map \<and> isOnePerScopeType E (Elem (out_Type out)) \<and>
        Kind (Key (out_Type out)) = reflect_String)"
    "\<not> (Kind (out_Type out) = reflect_Slice \<and> isAutoGroupType E (Elem (out_Type out)))"
    "\<not> isAutoGroupType E (out_Type out)" "\<not> isOnePerScopeType E (out_Type out)"
    by (simp_all add: simpleType_def)
  ultimately show ?thesis
    using assms(3) unfolding addNode_output_def Let_def by (auto simp add: new_def)
qed

lemma outputs_simple_install:
  assumes "graphNodesCreated E"
  shows "distinct (map out_Type outs) \<Longrightarrow>
    \<forall>x \<in> set outs. simpleType E (out_Type x) \<and> resolvers c (out_Type x) = None \<Longrightarrow>
    \<exists>c'. addNode_outputs E nd gn i outs c = (Inr (), c') \<and>
      (\<forall>j < length outs. \<exists>a.
         resolvers c' (out_Type (outs ! j)) = Some (simpleResolver a nd (out_Type (outs ! j)))) \<and>
      (\<forall>t. t \<notin> out_Type ` set outs \<longrightarrow> resolvers c' t = resolvers c t)"
proof (induction outs arbitrary: i c)
  case Nil
  then show ?case by simp
next
  case (Cons out outs)
  from Cons.prems have simple: "simpleType E (out_Type out)" and fresh: "resolvers c (out_Type out) = None"
    by simp_all
  obtain c1 where step: "addNode_output E nd gn i out c = (Inr (), c1)"
    and r1: "resolvers c1 = (resolvers c)(out_Type out \<mapsto> simpleResolver (alloc c) nd (out_Type out))"
    using output_simple_fresh [OF assms simple fresh] by blast
  have d: "distinct (map out_Type outs)" and notin: "out_Type out \<notin> out_Type ` set outs"
    using Cons.prems(1) by simp_all
  have "\<forall>x \<in> set outs. simpleType E (out_Type x) \<and> resolvers c1 (out_Type x) = None"
  proof
    fix x assume x: "x \<in> set outs"
    then have "out_Type x \<noteq> out_Type out" using notin by (metis image_eqI)
    then show "simpleType E (out_Type x) \<and> resolvers c1 (out_Type x) = None"
      using Cons.prems(2) x by (simp add: r1)
  qed
  from Cons.IH [OF d this, of "Suc i"] obtain c' where
    rest: "addNode_outputs E nd gn (Suc i) outs c1 = (Inr (), c')"
    and inst: "\<forall>j < length outs. \<exists>a.
         resolvers c' (out_Type (outs ! j)) = Some (simpleResolver a nd (out_Type (outs ! j)))"
    and frame: "\<forall>t. t \<notin> out_Type ` set outs \<longrightarrow> resolvers c' t = resolvers c1 t"
    by blast
  have all: "addNode_outputs E nd gn i (out # outs) c = (Inr (), c')"
    by (simp add: step rest)
  have here: "resolvers c' (out_Type out) = Some (simpleResolver (alloc c) nd (out_Type out))"
    using frame notin by (simp add: r1)
  have "\<exists>a. resolvers c' (out_Type ((out # outs) ! j)) =
          Some (simpleResolver a nd (out_Type ((out # outs) ! j)))"
    if "j < length (out # outs)" for j
  proof (cases j)
    case 0
    then show ?thesis using here by simp
  next
    case (Suc k)
    then show ?thesis using inst that by simp
  qed
  moreover have "\<forall>t. t \<notin> out_Type ` set (out # outs) \<longrightarrow> resolvers c' t = resolvers c t"
    using frame by (simp add: r1)
  ultimately show ?case using all by blast
qed





subsection \<open>Auto-group outputs\<close>

lemma output_auto_group:
  fixes E :: "('n, 'g, 'h, 'f) env"
  assumes "graphNodesCreated E" and "groupAccepts E"
    and nf: "\<not> (Kind (out_Type out) = reflect_Map \<and> isOnePerScopeType E (Elem (out_Type out)) \<and>
            Kind (Key (out_Type out)) = reflect_String)"
    and t: "t = (if Kind (out_Type out) = reflect_Slice \<and> isAutoGroupType E (Elem (out_Type out))
               then Elem (out_Type out) else out_Type out)"
    and ag: "isAutoGroupType E t" and fresh: "resolvers c t = None"
  shows "\<exists>c' b. addNode_output E nd gn i out c = (Inr (), c') \<and>
     resolvers c' t = Some (groupResolver (alloc c) t (SliceOf t)) \<and>
     resolvers c' (SliceOf t) = Some (sliceGroupResolver b (groupResolver (alloc c) t (SliceOf t)))"
proof -
  obtain n g where tg: "typeGraphNode E (SliceOf t) (graph c) = Inr (n, g)"
    using graphNodesCreated_type [OF assms(1)] by blast
  let ?c1 = "c\<lparr>graph := SetComment E n ''auto-group'' g, alloc := Suc (alloc c)\<rparr>"
  let ?r = "groupResolver (alloc c) t (SliceOf t)"
  obtain c2 where ad: "resolver_addNode E ?r nd i ?c1 = (None, c2)"
    using assms(2) unfolding groupAccepts_def by (metis prod.collapse)
  have neq: "t \<noteq> SliceOf t"
    by (induction t) simp_all
  have "addNode_output E nd gn i out c =
     (Inr (), c2\<lparr>resolvers := (resolvers c2)(t \<mapsto> ?r, SliceOf t \<mapsto> sliceGroupResolver (alloc c2) ?r),
               alloc := Suc (alloc c2),
               graph := addGraphEdge E gn n (graph c2)\<rparr>)"
    using nf ag fresh tg ad unfolding addNode_output_def t [symmetric] Let_def
    by (simp add: new_def)
  then show ?thesis using neq by auto
qed

lemma keepsRegistry_step:
  "keepsRegistry E \<Longrightarrow> resolver_addNode E r nd i c = (x, c1) \<Longrightarrow> resolvers c1 = resolvers c"
  unfolding keepsRegistry_def by (metis snd_conv)

lemma output_registry_cases:
  fixes E :: "('n, 'g, 'h, 'f) env"
  assumes K: "keepsRegistry E" and step: "addNode_output E nd gn i out c = (Inr (), c')"
    and u: "u = outputKey E (out_Type out)"
  shows "(\<exists>vr. resolvers c u = Some vr \<and> resolvers c' = resolvers c) \<or>
    (resolvers c u = None \<and> isAutoGroupType E u \<and>
       (\<exists>a b. resolvers c' = (resolvers c)(u \<mapsto> groupResolver a u (SliceOf u),
                   SliceOf u \<mapsto> sliceGroupResolver b (groupResolver a u (SliceOf u))))) \<or>
    (resolvers c u = None \<and> \<not> isAutoGroupType E u \<and> isOnePerScopeType E u \<and>
       (\<exists>a b. resolvers c' = (resolvers c)(u \<mapsto> onePerScopeResolver a u (MapOf stringType u),
                   MapOf stringType u \<mapsto> mapOfOnePerScopeResolver b (onePerScopeResolver a u (MapOf stringType u))))) \<or>
    (resolvers c u = None \<and> \<not> isAutoGroupType E u \<and> \<not> isOnePerScopeType E u \<and>
       (\<exists>a. resolvers c' = (resolvers c)(u \<mapsto> simpleResolver a nd u)))"
proof -
  have nf: "\<not> (Kind (out_Type out) = reflect_Map \<and> isOnePerScopeType E (Elem (out_Type out)) \<and>
               Kind (Key (out_Type out)) = reflect_String)"
    using step by (auto simp add: addNode_output_def)
  note body = step [unfolded addNode_output_def Let_def, simplified nf if_False, folded outputKey_def u]
  show ?thesis
  proof (cases "resolvers c u")
    case (Some vr)
    then obtain x c1 where a: "resolver_addNode E vr nd i c = (x, c1)" by (cases "resolver_addNode E vr nd i c")
    with body Some have "c' = c1" by (cases x) simp_all
    then show ?thesis using keepsRegistry_step [OF K a] Some by simp
  next
    case None
    show ?thesis
    proof (cases "isAutoGroupType E u")
      case True
      from body None True obtain n g where tg: "typeGraphNode E (SliceOf u) (graph c) = Inr (n, g)"
        by (cases "typeGraphNode E (SliceOf u) (graph c)") auto
      let ?c1 = "c\<lparr>graph := SetComment E n ''auto-group'' g, alloc := Suc (alloc c)\<rparr>"
      let ?r = "groupResolver (alloc c) u (SliceOf u)"
      obtain x c2 where ad: "resolver_addNode E ?r nd i ?c1 = (x, c2)"
        by (cases "resolver_addNode E ?r nd i ?c1")
      from body None True tg ad have x: "x = None"
        by (cases x) (simp_all add: new_def)
      have r2: "resolvers c2 = resolvers c" using keepsRegistry_step [OF K ad] by simp
      from body None True tg ad x have
        "resolvers c' = (resolvers c2)(u \<mapsto> ?r, SliceOf u \<mapsto> sliceGroupResolver (alloc c2) ?r)"
        by (auto simp add: new_def)
      then have "resolvers c' = (resolvers c)(u \<mapsto> ?r, SliceOf u \<mapsto> sliceGroupResolver (alloc c2) ?r)"
        by (simp add: r2)
      then show ?thesis using None True by blast
    next
      case False
      show ?thesis
      proof (cases "isOnePerScopeType E u")
        case True
        from body None False True obtain n g where tg: "typeGraphNode E (MapOf stringType u) (graph c) = Inr (n, g)"
          by (cases "typeGraphNode E (MapOf stringType u) (graph c)") auto
        let ?c1 = "c\<lparr>graph := SetComment E n ''one-per-scope'' g, alloc := Suc (alloc c)\<rparr>"
        let ?r = "onePerScopeResolver (alloc c) u (MapOf stringType u)"
        obtain x c2 where ad: "resolver_addNode E ?r nd i ?c1 = (x, c2)"
          by (cases "resolver_addNode E ?r nd i ?c1")
        from body None False True tg ad have x: "x = None"
          by (cases x) (simp_all add: new_def)
        have r2: "resolvers c2 = resolvers c" using keepsRegistry_step [OF K ad] by simp
        from body None False True tg ad x have
          "resolvers c' = (resolvers c2)(u \<mapsto> ?r, MapOf stringType u \<mapsto> mapOfOnePerScopeResolver (alloc c2) ?r)"
          by (auto simp add: new_def)
        then have "resolvers c' = (resolvers c)(u \<mapsto> ?r, MapOf stringType u \<mapsto> mapOfOnePerScopeResolver (alloc c2) ?r)"
          by (simp add: r2)
        then show ?thesis using None False True by blast
      next
        case nops: False
        from body None False nops obtain n g where tg: "typeGraphNode E u (graph c) = Inr (n, g)"
          by (cases "typeGraphNode E u (graph c)") auto
        from body None False nops tg have
          "resolvers c' = (resolvers c)(u \<mapsto> simpleResolver (alloc c) nd u)"
          by (auto simp add: new_def)
        then show ?thesis using None False nops by blast
      qed
    qed
  qed
qed

lemma step_keeps_group:
  fixes E :: "('n, 'g, 'h, 'f) env"
  assumes K: "keepsRegistry E" and step: "addNode_output E nd gn i out c = (Inr (), c')"
    and G: "groupInstalled t c" and ns: "\<forall>u. t \<noteq> SliceOf u" and nm: "\<forall>k v. t \<noteq> MapOf k v"
  shows "groupInstalled t c'"
proof -
  from G obtain a b where rt: "resolvers c t = Some (groupResolver a t (SliceOf t))"
    and rs: "resolvers c (SliceOf t) = Some (sliceGroupResolver b (groupResolver a t (SliceOf t)))"
    unfolding groupInstalled_def by blast
  let ?u = "outputKey E (out_Type out)"
  have keep: "resolvers c' t = resolvers c t \<and> resolvers c' (SliceOf t) = resolvers c (SliceOf t)"
    if new: "resolvers c ?u = None" and upd: "resolvers c' = (resolvers c)(?u \<mapsto> r1, k2 \<mapsto> r2)"
      and k2: "k2 = ?u \<or> (\<exists>w. k2 = SliceOf w \<and> w = ?u) \<or> (\<exists>w. k2 = MapOf stringType w)" for r1 r2 k2
  proof -
    have "?u \<noteq> t" "?u \<noteq> SliceOf t" using new rt rs by auto
    moreover have "k2 \<noteq> t" using k2 ns nm \<open>?u \<noteq> t\<close> by auto
    moreover have "k2 \<noteq> SliceOf t" using k2 \<open>?u \<noteq> t\<close> \<open>?u \<noteq> SliceOf t\<close> by auto
    ultimately show ?thesis by (simp add: upd)
  qed
  from output_registry_cases [OF K step refl]
  have "resolvers c' t = resolvers c t \<and> resolvers c' (SliceOf t) = resolvers c (SliceOf t)"
  proof (elim disjE conjE exE)
    fix vr assume "resolvers c' = resolvers c"
    then show ?thesis by simp
  next
    fix a' b' assume "resolvers c ?u = None"
      and "resolvers c' = (resolvers c)(?u \<mapsto> groupResolver a' ?u (SliceOf ?u),
             SliceOf ?u \<mapsto> sliceGroupResolver b' (groupResolver a' ?u (SliceOf ?u)))"
    then show ?thesis by (rule keep) simp
  next
    fix a' b' assume "resolvers c ?u = None"
      and "resolvers c' = (resolvers c)(?u \<mapsto> onePerScopeResolver a' ?u (MapOf stringType ?u),
             MapOf stringType ?u \<mapsto> mapOfOnePerScopeResolver b' (onePerScopeResolver a' ?u (MapOf stringType ?u)))"
    then show ?thesis by (rule keep) simp
  next
    fix a' assume n: "resolvers c ?u = None"
      and "resolvers c' = (resolvers c)(?u \<mapsto> simpleResolver a' nd ?u)"
    then have "resolvers c' = (resolvers c)(?u \<mapsto> simpleResolver a' nd ?u, ?u \<mapsto> simpleResolver a' nd ?u)"
      by simp
    with n show ?thesis by (rule keep) simp
  qed
  then show ?thesis using rt rs unfolding groupInstalled_def by simp
qed

lemma step_keeps_none:
  fixes E :: "('n, 'g, 'h, 'f) env"
  assumes K: "keepsRegistry E" and step: "addNode_output E nd gn i out c = (Inr (), c')"
    and N: "resolvers c t = None" and other: "outputKey E (out_Type out) \<noteq> t"
    and ns: "\<forall>u. t \<noteq> SliceOf u" and nm: "\<forall>k v. t \<noteq> MapOf k v"
  shows "resolvers c' t = None"
  using output_registry_cases [OF K step refl] N other ns nm
  by (elim disjE conjE exE) auto

lemma step_installs_group:
  fixes E :: "('n, 'g, 'h, 'f) env"
  assumes K: "keepsRegistry E" and step: "addNode_output E nd gn i out c = (Inr (), c')"
    and N: "resolvers c t = None" and key: "outputKey E (out_Type out) = t"
    and ag: "isAutoGroupType E t"
  shows "groupInstalled t c'"
proof -
  have neq: "t \<noteq> SliceOf t" by (induction t) simp_all
  from output_registry_cases [OF K step refl] N key ag neq
  show ?thesis unfolding groupInstalled_def
    by (elim disjE conjE exE) auto
qed

lemma outputs_group:
  fixes E :: "('n, 'g, 'h, 'f) env"
  assumes K: "keepsRegistry E" and ag: "isAutoGroupType E t"
    and ns: "\<forall>u. t \<noteq> SliceOf u" and nm: "\<forall>k v. t \<noteq> MapOf k v"
  shows "addNode_outputs E nd gn i outs c = (Inr (), c') \<Longrightarrow>
    (groupInstalled t c \<longrightarrow> groupInstalled t c') \<and>
    (resolvers c t = None \<and> (\<exists>out \<in> set outs. outputKey E (out_Type out) = t) \<longrightarrow> groupInstalled t c')"
proof (induction outs arbitrary: i c)
  case Nil
  then show ?case by simp
next
  case (Cons x outs)
  from Cons.prems obtain c1 where step: "addNode_output E nd gn i x c = (Inr (), c1)"
    and rest: "addNode_outputs E nd gn (Suc i) outs c1 = (Inr (), c')"
    by (cases "addNode_output E nd gn i x c") (auto split: sum.splits)
  note IH = Cons.IH [OF rest]
  show ?case
  proof (intro conjI impI)
    assume "groupInstalled t c"
    then have "groupInstalled t c1" by (rule step_keeps_group [OF K step _ ns nm])
    then show "groupInstalled t c'" using IH by blast
  next
    assume a: "resolvers c t = None \<and> (\<exists>out \<in> set (x # outs). outputKey E (out_Type out) = t)"
    then have none: "resolvers c t = None" by simp
    show "groupInstalled t c'"
    proof (cases "outputKey E (out_Type x) = t")
      case True
      have "groupInstalled t c1" by (rule step_installs_group [OF K step none True ag])
      then show ?thesis using IH by blast
    next
      case False
      have "resolvers c1 t = None" by (rule step_keeps_none [OF K step none False ns nm])
      moreover have "\<exists>out \<in> set outs. outputKey E (out_Type out) = t" using a False by auto
      ultimately show ?thesis using IH by blast
    qed
  qed
qed

lemma addNode_simple_success:
  assumes "scope \<noteq> None \<or> \<not> (\<exists>inp \<in> set (Inputs p). in_Type inp = scopeType)"
    and "addNode E p scope c = (Inr nd, c')"
  shows "\<exists>gn c2. resolvers c2 = resolvers c \<and> nd = simpleProvider (alloc c) p scope \<and>
     addNode_outputs E nd gn 0 (Outputs p) c2 = (Inr (), c')"
proof (cases "locationGraphNode E (Location p) scope (graph c)")
  case (Inl err)
  then show ?thesis using assms(2) by (simp add: addNode_def)
next
  case (Inr ng)
  obtain gn g where ng: "ng = (gn, g)" by (cases ng)
  show ?thesis
  proof (cases "addNode_inputs E gn (Inputs p) False (c\<lparr>graph := g\<rparr>)")
    case (Pair r c1)
    show ?thesis
    proof (cases r)
      case (Inl err)
      then show ?thesis using Inr ng Pair assms(2) by (simp add: addNode_def)
    next
      case h: (Inr h')
      from addNode_inputs_flag [of E gn "Inputs p" False "c\<lparr>graph := g\<rparr>" h' c1] Pair h
      have hv: "h' = (\<exists>inp \<in> set (Inputs p). in_Type inp = scopeType)" and c1: "c1 = c\<lparr>graph := graph c1\<rparr>"
        by simp_all
      with assms(1) have branch: "scope \<noteq> None \<or> \<not> h'" by simp
      have a: "alloc c1 = alloc c" and r: "resolvers c1 = resolvers c"
        by (subst c1, simp)+
      let ?nd = "simpleProvider (alloc c) p scope"
      let ?c2 = "c1\<lparr>alloc := Suc (alloc c)\<rparr>"
      show ?thesis
      proof (cases "locationGraphNode E (Location p) scope (graph ?c2)")
        case (Inl err)
        then show ?thesis using Inr ng Pair h branch assms(2) a by (auto simp add: addNode_def new_def)
      next
        case g2: (Inr ng')
        obtain gn' g' where ng': "ng' = (gn', g')" by (cases ng')
        obtain ro c3 where lo: "addNode_outputs E ?nd gn' 0 (Outputs p) (?c2\<lparr>graph := g'\<rparr>) = (ro, c3)"
          by (cases "addNode_outputs E ?nd gn' 0 (Outputs p) (?c2\<lparr>graph := g'\<rparr>)")
        have "addNode E p scope c = (case ro of Inl err \<Rightarrow> (Inl err, c3) | Inr u \<Rightarrow> (Inr ?nd, c3))"
          using Inr ng Pair h branch g2 ng' lo a
          by (auto simp add: addNode_def new_def Let_def split: sum.splits)
        with assms(2) have "ro = Inr ()" "nd = ?nd" "c3 = c'"
          by (cases ro; simp)+
        moreover have "resolvers (?c2\<lparr>graph := g'\<rparr>) = resolvers c" by (simp add: r)
        ultimately show ?thesis using lo by blast
      qed
    qed
  qed
qed

lemma step_fail_registry:
  fixes E :: "('n, 'g, 'h, 'f) env"
  assumes K: "keepsRegistry E" and step: "addNode_output E nd gn i out c = (Inl err, c')"
  shows "resolvers c' = resolvers c"
proof (cases "Kind (out_Type out) = reflect_Map \<and> isOnePerScopeType E (Elem (out_Type out)) \<and>
               Kind (Key (out_Type out)) = reflect_String")
  case True
  then show ?thesis using step by (simp add: addNode_output_def)
next
  case nf: False
  let ?u = "outputKey E (out_Type out)"
  note body = step [unfolded addNode_output_def Let_def, simplified nf if_False, folded outputKey_def]
  show ?thesis
  proof (cases "resolvers c ?u")
    case (Some vr)
    then obtain x c1 where a: "resolver_addNode E vr nd i c = (x, c1)" by (cases "resolver_addNode E vr nd i c")
    with body Some have "c' = c1" by (cases x) simp_all
    then show ?thesis using keepsRegistry_step [OF K a] by simp
  next
    case None
    show ?thesis
    proof (cases "isAutoGroupType E ?u")
      case True
      show ?thesis
      proof (cases "typeGraphNode E (SliceOf ?u) (graph c)")
        case (Inl e)
        then show ?thesis using body None True by simp
      next
        case (Inr ng)
        obtain n g where ng: "ng = (n, g)" by (cases ng)
        let ?c1 = "c\<lparr>graph := SetComment E n ''auto-group'' g, alloc := Suc (alloc c)\<rparr>"
        let ?r = "groupResolver (alloc c) ?u (SliceOf ?u)"
        obtain x c2 where ad: "resolver_addNode E ?r nd i ?c1 = (x, c2)"
          by (cases "resolver_addNode E ?r nd i ?c1")
        from body None True Inr ng ad have "c' = c2"
          by (cases x) (simp_all add: new_def)
        then show ?thesis using keepsRegistry_step [OF K ad] by simp
      qed
    next
      case False
      show ?thesis
      proof (cases "isOnePerScopeType E ?u")
        case True
        show ?thesis
        proof (cases "typeGraphNode E (MapOf stringType ?u) (graph c)")
          case (Inl e)
          then show ?thesis using body None False True by simp
        next
          case (Inr ng)
          obtain n g where ng: "ng = (n, g)" by (cases ng)
          let ?c1 = "c\<lparr>graph := SetComment E n ''one-per-scope'' g, alloc := Suc (alloc c)\<rparr>"
          let ?r = "onePerScopeResolver (alloc c) ?u (MapOf stringType ?u)"
          obtain x c2 where ad: "resolver_addNode E ?r nd i ?c1 = (x, c2)"
            by (cases "resolver_addNode E ?r nd i ?c1")
          from body None False True Inr ng ad have "c' = c2"
            by (cases x) (simp_all add: new_def)
          then show ?thesis using keepsRegistry_step [OF K ad] by simp
        qed
      next
        case nops: False
        show ?thesis
          using body None False nops
          by (cases "typeGraphNode E ?u (graph c)") (auto simp add: new_def)
      qed
    qed
  qed
qed

lemma outputs_keep_group:
  fixes E :: "('n, 'g, 'h, 'f) env"
  assumes K: "keepsRegistry E" and ns: "\<forall>u. t \<noteq> SliceOf u" and nm: "\<forall>k v. t \<noteq> MapOf k v"
  shows "addNode_outputs E nd gn i outs c = (r, c') \<Longrightarrow> groupInstalled t c \<Longrightarrow> groupInstalled t c'"
proof (induction outs arbitrary: i c)
  case Nil
  then show ?case by simp
next
  case (Cons x outs)
  obtain rs c1 where step: "addNode_output E nd gn i x c = (rs, c1)"
    by (cases "addNode_output E nd gn i x c")
  show ?case
  proof (cases rs)
    case (Inl err)
    then have "c' = c1" using Cons.prems(1) step by simp
    moreover have "resolvers c1 = resolvers c"
      using step_fail_registry [OF K] step Inl by blast
    ultimately show ?thesis using Cons.prems(2) by (simp add: groupInstalled_def)
  next
    case (Inr u)
    then have s1: "addNode_output E nd gn i x c = (Inr (), c1)" using step by simp
    then have rest: "addNode_outputs E nd gn (Suc i) outs c1 = (r, c')"
      using Cons.prems(1) by simp
    have "groupInstalled t c1"
      by (rule step_keeps_group [OF K s1 Cons.prems(2) ns nm])
    then show ?thesis by (rule Cons.IH [OF rest])
  qed
qed

lemma addNode_group_after_simple:
  fixes E :: "('n, 'g, 'h, 'f) env"
  assumes g: "graphNodesCreated E" and ga: "groupAccepts E"
    and nf: "\<not> (Kind (out_Type out) = reflect_Map \<and> isOnePerScopeType E (Elem (out_Type out)) \<and>
            Kind (Key (out_Type out)) = reflect_String)"
    and t: "t = (if Kind (out_Type out) = reflect_Slice \<and> isAutoGroupType E (Elem (out_Type out))
               then Elem (out_Type out) else out_Type out)"
    and ag: "isAutoGroupType E t"
    and sc: "scope \<noteq> None \<or> \<not> (\<exists>inp \<in> set (Inputs p). in_Type inp = scopeType)"
    and K: "keepsRegistry E" and ns: "\<forall>u. t \<noteq> SliceOf u" and nm: "\<forall>k v. t \<noteq> MapOf k v"
    and o: "Outputs p = pre @ out # post" and d: "distinct (map out_Type pre)"
    and f: "\<forall>x \<in> set pre. simpleType E (out_Type x) \<and> resolvers c (out_Type x) = None"
    and n: "resolvers c t = None"
  shows "groupInstalled t (snd (addNode E p scope c))"
proof -
  let ?nd = "simpleProvider (alloc c) p scope"
  obtain gn c2 where r2: "resolvers c2 = resolvers c"
    and unf: "addNode E p scope c =
       (case addNode_outputs E ?nd gn 0 (Outputs p) c2 of
          (Inl err, c3) \<Rightarrow> (Inl err, c3)
        | (Inr u, c3) \<Rightarrow> (Inr ?nd, c3))"
    using addNode_simple_unfold [OF g sc] by blast
  from f have f2: "\<forall>x \<in> set pre. simpleType E (out_Type x) \<and> resolvers c2 (out_Type x) = None"
    by (simp add: r2)
  obtain c3 where p3: "addNode_outputs E ?nd gn 0 pre c2 = (Inr (), c3)"
    and frame: "\<forall>k. k \<notin> out_Type ` set pre \<longrightarrow> resolvers c3 k = resolvers c2 k"
    using outputs_simple_install [OF g d f2, of ?nd gn 0] by blast
  have "t \<notin> out_Type ` set pre"
    using f ag by (auto simp add: simpleType_def)
  then have n3: "resolvers c3 t = None" using frame n r2 by simp
  from output_auto_group [OF g ga nf t ag n3, of ?nd gn "length pre"]
  obtain c4 where s4: "addNode_output E ?nd gn (length pre) out c3 = (Inr (), c4)"
    and g4: "groupInstalled t c4"
    unfolding groupInstalled_def by blast
  obtain r c5 where rest: "addNode_outputs E ?nd gn (Suc (length pre)) post c4 = (r, c5)"
    by (cases "addNode_outputs E ?nd gn (Suc (length pre)) post c4")
  have g5: "groupInstalled t c5"
    by (rule outputs_keep_group [OF K ns nm rest g4])
  have "addNode_outputs E ?nd gn 0 (Outputs p) c2 = (r, c5)"
    by (simp add: o outputs_append p3 s4 rest)
  then have "snd (addNode E p scope c) = c5"
    by (cases r) (simp_all add: unf)
  then show ?thesis using g5 by simp
qed

text \<open>
  C6. An output of a simple provider, not of the forbidden map shape, on a graph that
  creates its nodes and with group resolvers that accept providers. Let \<open>t\<close> be the element
  type when the output type is of slice kind with an auto-group element type, and the
  output type itself otherwise, and let \<open>t\<close> be an auto-group type. If \<open>t\<close> has no
  resolver in the registry, the turn of the loop for this output succeeds and leaves a
  \<open>groupResolver\<close> for \<open>t\<close> and its slice type under the key \<open>t\<close>, and a
  \<open>sliceGroupResolver\<close> around the same group resolver under the key \<open>SliceOf t\<close>. For a
  provider with this single output, \<open>addNode\<close> returns the \<open>simpleProvider\<close> node and the
  registry holds both entries. For a provider with this output at any position among its
  outputs: when \<open>t\<close> had no resolver before, the methods of the resolvers leave the
  registry alone, \<open>t\<close> is not an unnamed slice or map type (such a type has no methods and
  cannot carry the marker), and registration returns a node, the node is the
  \<open>simpleProvider\<close> and the registry after registration holds both entries. And when
  the outputs before this one are distinct simple types without resolver, the registry
  that \<open>addNode\<close> leaves holds both entries whether or not a later output fails.
\<close>

theorem addNode_auto_group:
  fixes E :: "('n, 'g, 'h, 'f) env"
  assumes "graphNodesCreated E" and "groupAccepts E"
    and "\<not> (Kind (out_Type out) = reflect_Map \<and> isOnePerScopeType E (Elem (out_Type out)) \<and>
            Kind (Key (out_Type out)) = reflect_String)"
    and "t = (if Kind (out_Type out) = reflect_Slice \<and> isAutoGroupType E (Elem (out_Type out))
               then Elem (out_Type out) else out_Type out)"
    and "isAutoGroupType E t"
  shows "(\<forall>nd gn i c1. resolvers c1 t = None \<longrightarrow>
       (\<exists>c' b. addNode_output E nd gn i out c1 = (Inr (), c') \<and>
          resolvers c' t = Some (groupResolver (alloc c1) t (SliceOf t)) \<and>
          resolvers c' (SliceOf t) = Some (sliceGroupResolver b (groupResolver (alloc c1) t (SliceOf t))))) \<and>
    ((scope \<noteq> None \<or> \<not> (\<exists>inp \<in> set (Inputs p). in_Type inp = scopeType)) \<and>
     Outputs p = [out] \<and> resolvers c t = None \<longrightarrow>
       (\<exists>c' a b. addNode E p scope c = (Inr (simpleProvider (alloc c) p scope), c') \<and>
          resolvers c' t = Some (groupResolver a t (SliceOf t)) \<and>
          resolvers c' (SliceOf t) = Some (sliceGroupResolver b (groupResolver a t (SliceOf t))))) \<and>
    (\<forall>nd c'.
       (scope \<noteq> None \<or> \<not> (\<exists>inp \<in> set (Inputs p). in_Type inp = scopeType)) \<and>
       out \<in> set (Outputs p) \<and> resolvers c t = None \<and>
       keepsRegistry E \<and> (\<forall>u. t \<noteq> SliceOf u) \<and> (\<forall>k v. t \<noteq> MapOf k v) \<and>
       addNode E p scope c = (Inr nd, c') \<longrightarrow>
         nd = simpleProvider (alloc c) p scope \<and>
         (\<exists>a b. resolvers c' t = Some (groupResolver a t (SliceOf t)) \<and>
            resolvers c' (SliceOf t) = Some (sliceGroupResolver b (groupResolver a t (SliceOf t))))) \<and>
    (\<forall>pre post.
       (scope \<noteq> None \<or> \<not> (\<exists>inp \<in> set (Inputs p). in_Type inp = scopeType)) \<and>
       Outputs p = pre @ out # post \<and> distinct (map out_Type pre) \<and>
       (\<forall>x \<in> set pre. simpleType E (out_Type x) \<and> resolvers c (out_Type x) = None) \<and>
       resolvers c t = None \<and>
       keepsRegistry E \<and> (\<forall>u. t \<noteq> SliceOf u) \<and> (\<forall>k v. t \<noteq> MapOf k v) \<longrightarrow>
         (\<exists>a b. resolvers (snd (addNode E p scope c)) t = Some (groupResolver a t (SliceOf t)) \<and>
            resolvers (snd (addNode E p scope c)) (SliceOf t) =
              Some (sliceGroupResolver b (groupResolver a t (SliceOf t)))))"
proof (intro conjI allI impI)
  fix nd gn i and c1 :: "('g, 'h) container"
  assume "resolvers c1 t = None"
  then show "\<exists>c' b. addNode_output E nd gn i out c1 = (Inr (), c') \<and>
          resolvers c' t = Some (groupResolver (alloc c1) t (SliceOf t)) \<and>
          resolvers c' (SliceOf t) = Some (sliceGroupResolver b (groupResolver (alloc c1) t (SliceOf t)))"
    by (rule output_auto_group [OF assms])
next
  assume a: "(scope \<noteq> None \<or> \<not> (\<exists>inp \<in> set (Inputs p). in_Type inp = scopeType)) \<and>
     Outputs p = [out] \<and> resolvers c t = None"
  then obtain gn c2 where r2: "resolvers c2 = resolvers c"
    and unf: "addNode E p scope c =
       (case addNode_outputs E (simpleProvider (alloc c) p scope) gn 0 (Outputs p) c2 of
          (Inl err, c3) \<Rightarrow> (Inl err, c3)
        | (Inr u, c3) \<Rightarrow> (Inr (simpleProvider (alloc c) p scope), c3))"
    using addNode_simple_unfold [OF assms(1)] by blast
  from a r2 have "resolvers c2 t = None" by simp
  from output_auto_group [OF assms this, of "simpleProvider (alloc c) p scope" gn 0]
  obtain c' b where "addNode_output E (simpleProvider (alloc c) p scope) gn 0 out c2 = (Inr (), c')"
    and "resolvers c' t = Some (groupResolver (alloc c2) t (SliceOf t))"
    and "resolvers c' (SliceOf t) = Some (sliceGroupResolver b (groupResolver (alloc c2) t (SliceOf t)))"
    by blast
  then show "\<exists>c' a b. addNode E p scope c = (Inr (simpleProvider (alloc c) p scope), c') \<and>
          resolvers c' t = Some (groupResolver a t (SliceOf t)) \<and>
          resolvers c' (SliceOf t) = Some (sliceGroupResolver b (groupResolver a t (SliceOf t)))"
    using a by (auto simp add: unf)
next
  fix nd and c' :: "('g, 'h) container"
  assume a: "(scope \<noteq> None \<or> \<not> (\<exists>inp \<in> set (Inputs p). in_Type inp = scopeType)) \<and>
       out \<in> set (Outputs p) \<and> resolvers c t = None \<and>
       keepsRegistry E \<and> (\<forall>u. t \<noteq> SliceOf u) \<and> (\<forall>k v. t \<noteq> MapOf k v) \<and>
       addNode E p scope c = (Inr nd, c')"
  then obtain gn c2 where r2: "resolvers c2 = resolvers c"
    and nd: "nd = simpleProvider (alloc c) p scope"
    and loop: "addNode_outputs E nd gn 0 (Outputs p) c2 = (Inr (), c')"
    using addNode_simple_success [of scope p E c nd c'] by blast
  have key: "outputKey E (out_Type out) = t"
    by (simp add: outputKey_def assms(4))
  from a have K: "keepsRegistry E" and ns: "\<forall>u. t \<noteq> SliceOf u" and nm: "\<forall>k v. t \<noteq> MapOf k v"
    by simp_all
  have "resolvers c2 t = None \<and> (\<exists>x \<in> set (Outputs p). outputKey E (out_Type x) = t)"
    using a r2 key by auto
  with outputs_group [OF K assms(5) ns nm loop] have "groupInstalled t c'"
    by blast
  then show "nd = simpleProvider (alloc c) p scope"
    and "\<exists>a b. resolvers c' t = Some (groupResolver a t (SliceOf t)) \<and>
            resolvers c' (SliceOf t) = Some (sliceGroupResolver b (groupResolver a t (SliceOf t)))"
    using nd unfolding groupInstalled_def by simp_all
next
  fix pre post
  assume a: "(scope \<noteq> None \<or> \<not> (\<exists>inp \<in> set (Inputs p). in_Type inp = scopeType)) \<and>
       Outputs p = pre @ out # post \<and> distinct (map out_Type pre) \<and>
       (\<forall>x \<in> set pre. simpleType E (out_Type x) \<and> resolvers c (out_Type x) = None) \<and>
       resolvers c t = None \<and>
       keepsRegistry E \<and> (\<forall>u. t \<noteq> SliceOf u) \<and> (\<forall>k v. t \<noteq> MapOf k v)"
  have "groupInstalled t (snd (addNode E p scope c))"
    by (rule addNode_group_after_simple [OF assms, of scope p pre post c]) (use a in simp_all)
  then show "\<exists>a b. resolvers (snd (addNode E p scope c)) t = Some (groupResolver a t (SliceOf t)) \<and>
            resolvers (snd (addNode E p scope c)) (SliceOf t) =
              Some (sliceGroupResolver b (groupResolver a t (SliceOf t)))"
    unfolding groupInstalled_def .
qed

theorem addNode_auto_group_witness:
  "graphNodesCreated env0 \<and> groupAccepts env0 \<and> keepsRegistry env0 \<and>
   Kind (out_Type (ProviderOutput (SliceOf typeX))) = reflect_Slice \<and>
   isAutoGroupType env0 (Elem (out_Type (ProviderOutput (SliceOf typeX)))) \<and>
   Outputs provideXs = [ProviderOutput (SliceOf typeX)] \<and>
   Outputs provideAXs = [ProviderOutput typeA, ProviderOutput (SliceOf typeX)] \<and>
   resolvers emptyContainer typeX = None \<and>
   (\<exists>c' a b. addNode env0 provideXs None emptyContainer = (Inr (simpleProvider 0 provideXs None), c') \<and>
      resolvers c' typeX = Some (groupResolver a typeX (SliceOf typeX)) \<and>
      resolvers c' (SliceOf typeX) = Some (sliceGroupResolver b (groupResolver a typeX (SliceOf typeX)))) \<and>
   (\<exists>c' a b. addNode env0 provideAXs None emptyContainer = (Inr (simpleProvider 0 provideAXs None), c') \<and>
      resolvers c' typeX = Some (groupResolver a typeX (SliceOf typeX)) \<and>
      resolvers c' (SliceOf typeX) = Some (sliceGroupResolver b (groupResolver a typeX (SliceOf typeX)))) \<and>
   simpleType env0 typeA \<and> resolvers emptyContainer typeA = None \<and>
   (\<exists>a b. resolvers (snd (addNode env0 provideAXs None emptyContainer)) typeX =
             Some (groupResolver a typeX (SliceOf typeX)) \<and>
          resolvers (snd (addNode env0 provideAXs None emptyContainer)) (SliceOf typeX) =
             Some (sliceGroupResolver b (groupResolver a typeX (SliceOf typeX))))"
proof -
  have nf: "\<not> (Kind (out_Type (ProviderOutput (SliceOf typeX))) = reflect_Map \<and>
      isOnePerScopeType env0 (Elem (out_Type (ProviderOutput (SliceOf typeX)))) \<and>
      Kind (Key (out_Type (ProviderOutput (SliceOf typeX)))) = reflect_String)"
    by simp
  have ag: "isAutoGroupType env0 typeX"
    by (simp add: env0_def typeX_def)
  have t: "typeX = (if Kind (out_Type (ProviderOutput (SliceOf typeX))) = reflect_Slice \<and>
        isAutoGroupType env0 (Elem (out_Type (ProviderOutput (SliceOf typeX))))
      then Elem (out_Type (ProviderOutput (SliceOf typeX))) else out_Type (ProviderOutput (SliceOf typeX)))"
    using ag by simp
  have o: "Outputs provideXs = [ProviderOutput (SliceOf typeX)]" and i: "Inputs provideXs = []"
    by (simp_all add: provideXs_def)
  have o2: "Outputs provideAXs = [ProviderOutput typeA, ProviderOutput (SliceOf typeX)]"
    and i2: "Inputs provideAXs = []"
    by (simp_all add: provideAXs_def)
  have f: "resolvers emptyContainer typeX = None" and a: "alloc emptyContainer = 0"
    by (simp_all add: emptyContainer_def newContainer_def)
  have nu: "(\<forall>u. typeX \<noteq> SliceOf u) \<and> (\<forall>k v. typeX \<noteq> MapOf k v)"
    by (simp add: typeX_def)
  note one = addNode_auto_group [OF graphNodesCreated_env0 groupAccepts_env0 nf t ag, of None provideXs emptyContainer]
  note two = addNode_auto_group [OF graphNodesCreated_env0 groupAccepts_env0 nf t ag, of None provideAXs emptyContainer]
  from one have single: "\<exists>c' a b. addNode env0 provideXs None emptyContainer = (Inr (simpleProvider 0 provideXs None), c') \<and>
      resolvers c' typeX = Some (groupResolver a typeX (SliceOf typeX)) \<and>
      resolvers c' (SliceOf typeX) = Some (sliceGroupResolver b (groupResolver a typeX (SliceOf typeX)))"
    using o f by (simp add: i a)
  obtain c' where reg: "addNode env0 provideAXs None emptyContainer = (Inr (simpleProvider 0 provideAXs None), c')"
    using provideAXs_registered by blast
  from two have "(None \<noteq> (None :: Scope option) \<or> \<not> (\<exists>inp \<in> set (Inputs provideAXs). in_Type inp = scopeType)) \<and>
       ProviderOutput (SliceOf typeX) \<in> set (Outputs provideAXs) \<and> resolvers emptyContainer typeX = None \<and>
       keepsRegistry env0 \<and> (\<forall>u. typeX \<noteq> SliceOf u) \<and> (\<forall>k v. typeX \<noteq> MapOf k v) \<and>
       addNode env0 provideAXs None emptyContainer = (Inr (simpleProvider 0 provideAXs None), c') \<longrightarrow>
         (\<exists>a b. resolvers c' typeX = Some (groupResolver a typeX (SliceOf typeX)) \<and>
            resolvers c' (SliceOf typeX) = Some (sliceGroupResolver b (groupResolver a typeX (SliceOf typeX))))"
    by blast
  then have multi: "\<exists>a b. resolvers c' typeX = Some (groupResolver a typeX (SliceOf typeX)) \<and>
            resolvers c' (SliceOf typeX) = Some (sliceGroupResolver b (groupResolver a typeX (SliceOf typeX)))"
    using reg f nu keepsRegistry_env0 by (simp add: o2 i2)
  have fa: "resolvers emptyContainer typeA = None"
    by (simp add: emptyContainer_def newContainer_def)
  from two have "(None \<noteq> (None :: Scope option) \<or> \<not> (\<exists>inp \<in> set (Inputs provideAXs). in_Type inp = scopeType)) \<and>
       Outputs provideAXs = [ProviderOutput typeA] @ ProviderOutput (SliceOf typeX) # [] \<and>
       distinct (map out_Type [ProviderOutput typeA]) \<and>
       (\<forall>x \<in> set [ProviderOutput typeA]. simpleType env0 (out_Type x) \<and> resolvers emptyContainer (out_Type x) = None) \<and>
       resolvers emptyContainer typeX = None \<and>
       keepsRegistry env0 \<and> (\<forall>u. typeX \<noteq> SliceOf u) \<and> (\<forall>k v. typeX \<noteq> MapOf k v) \<longrightarrow>
         (\<exists>a b. resolvers (snd (addNode env0 provideAXs None emptyContainer)) typeX =
                   Some (groupResolver a typeX (SliceOf typeX)) \<and>
            resolvers (snd (addNode env0 provideAXs None emptyContainer)) (SliceOf typeX) =
              Some (sliceGroupResolver b (groupResolver a typeX (SliceOf typeX))))"
    by blast
  then have anypos: "\<exists>a b. resolvers (snd (addNode env0 provideAXs None emptyContainer)) typeX =
                   Some (groupResolver a typeX (SliceOf typeX)) \<and>
            resolvers (snd (addNode env0 provideAXs None emptyContainer)) (SliceOf typeX) =
              Some (sliceGroupResolver b (groupResolver a typeX (SliceOf typeX)))"
    using f fa nu keepsRegistry_env0 simpleType_typeA by (simp add: o2 i2)
  show ?thesis
    using graphNodesCreated_env0 groupAccepts_env0 keepsRegistry_env0 ag o o2 f single reg multi
      simpleType_typeA fa anypos
    by auto
qed

section \<open>Running an invoker\<close>

text \<open>
  C10. The descriptor \<open>rctr\<close> of the invoker has an input of the scope type. Then \<open>run\<close>
  returns an error. When the invoker has no outputs and the graph creates its nodes,
  \<open>addNode\<close> with no scope binding returns a \<open>scopeDepProvider\<close> node, the error of \<open>run\<close>
  is "cannot run scoped provider as an invoker", and the container differs from the one
  before by the graph and one allocated address only: nothing was pushed on the stacks.
  No input is resolved: with any other behaviour of the resolvers (\<open>h\<close>) and of the
  providers (\<open>f\<close>), \<open>run\<close> returns the same.
\<close>

theorem run_scoped_invoker:
  assumes "ExtractProviderDescriptor E invoker = Inr rctr"
    and "\<exists>inp \<in> set (Inputs rctr). in_Type inp = scopeType"
  shows "fst (run E invoker c) \<noteq> None \<and>
    (Outputs rctr = [] \<and> graphNodesCreated E \<longrightarrow>
       (\<exists>c1. addNode E rctr None c = (Inr (scopeDepProvider (alloc c) rctr), c1) \<and>
             run E invoker c = (Some (Errorf ''cannot run scoped provider as an invoker''), c1) \<and>
             c1 = c\<lparr>graph := graph c1, alloc := Suc (alloc c)\<rparr>)) \<and>
    (\<forall>h f. run (E\<lparr>resolver_resolve := h, resolveValues := f\<rparr>) invoker c = run E invoker c)"
proof (intro conjI allI impI)
  show "fst (run E invoker c) \<noteq> None"
  proof (cases "addNode E rctr None c")
    case (Pair r c1)
    show ?thesis
    proof (cases r)
      case (Inl err)
      then show ?thesis using Pair assms(1) by (simp add: run_def)
    next
      case (Inr nd)
      then obtain a where "nd = scopeDepProvider a rctr"
        using addNode_scoped_node [OF _ assms(2)] Pair by blast
      then show ?thesis using Pair Inr assms(1) by (simp add: run_def)
    qed
  qed
next
  assume "Outputs rctr = [] \<and> graphNodesCreated E"
  then obtain c1 where "addNode E rctr None c = (Inr (scopeDepProvider (alloc c) rctr), c1)"
    and "c1 = c\<lparr>graph := graph c1, alloc := Suc (alloc c)\<rparr>"
    using addNode_scoped_no_outputs [OF _ assms(2)] by blast
  then show "\<exists>c1. addNode E rctr None c = (Inr (scopeDepProvider (alloc c) rctr), c1) \<and>
             run E invoker c = (Some (Errorf ''cannot run scoped provider as an invoker''), c1) \<and>
             c1 = c\<lparr>graph := graph c1, alloc := Suc (alloc c)\<rparr>"
    using assms(1) \<open>Outputs rctr = [] \<and> graphNodesCreated E\<close> by (simp add: run_def)
next
  fix h f
  show "run (E\<lparr>resolver_resolve := h, resolveValues := f\<rparr>) invoker c = run E invoker c"
  proof (cases "addNode E rctr None c")
    case (Pair r c1)
    show ?thesis
    proof (cases r)
      case (Inl err)
      then show ?thesis using Pair assms(1) by (simp add: run_def addNode_indep)
    next
      case (Inr nd)
      then obtain a where "nd = scopeDepProvider a rctr"
        using addNode_scoped_node [OF _ assms(2)] Pair by blast
      then show ?thesis using Pair Inr assms(1) by (simp add: run_def addNode_indep)
    qed
  qed
qed

theorem run_scoped_invoker_witness:
  "ExtractProviderDescriptor env0 scopedInvoker = Inr scopedInvoker \<and>
   (\<exists>inp \<in> set (Inputs scopedInvoker). in_Type inp = scopeType) \<and>
   Outputs scopedInvoker = [] \<and> graphNodesCreated env0 \<and>
   run env0 scopedInvoker emptyContainer =
     (Some (Errorf ''cannot run scoped provider as an invoker''), emptyContainer\<lparr>alloc := 1\<rparr>)"
proof -
  have e: "ExtractProviderDescriptor env0 scopedInvoker = Inr scopedInvoker"
    by (simp add: env0_def)
  have i: "\<exists>inp \<in> set (Inputs scopedInvoker). in_Type inp = scopeType"
    by (simp add: scopedInvoker_def)
  have out: "Outputs scopedInvoker = []"
    by (simp add: scopedInvoker_def)
  have a: "alloc emptyContainer = 0" "graph emptyContainer = ()" by (simp_all add: emptyContainer_def newContainer_def)
  show ?thesis
    using e i out graphNodesCreated_env0 run_scoped_invoker [OF e i, of emptyContainer]
    by (auto simp add: a)
qed

end
